theory Spec2Isabelle
  imports Complex_Main "HOL-Library.Word"
begin

section \<open>Durin: command codec, actuator, telemetry aggregator and DVS control protocol\<close>

text \<open>
  A shallow embedding of the host-side control layer of the Durin robot:
  \<^item> \<open>durin/actuator.py\<close>: the command encoders and \<open>DurinActuator.__call__\<close>;
  \<^item> \<open>durin/io/network.py\<close>: \<open>TCPLink.send\<close> and \<open>DVSClient\<close>;
  \<^item> \<open>durin/sensor.py\<close>: \<open>DurinSensor.consume\<close> and \<open>DurinSensor.read\<close>;
  \<^item> \<open>durin/controller/server.py\<close>: \<open>DVSServer._parse_command\<close> and
    \<open>AEStreamer.stop_stream\<close>.

  Python integers are \<open>int\<close>, the elements of a \<open>bytearray\<close> or \<open>bytes\<close> object are
  \<open>8 word\<close>, text is \<open>string\<close> (ASCII), and every exception the code can raise is a
  value \<open>Inl e\<close> of a sum type.
\<close>

subsection \<open>Python values and exceptions\<close>

type_synonym byte = "8 word"

datatype py_error =
    StructError
  | ValueError
  | OverflowError
  | IndexError
  | TypeError
  | AttributeError
  | Full
  | BrokenPipeError
  | ConnectionRefusedError
  | RecursionError
  | OtherError

text \<open>\<open>struct.pack("<h", x)\<close>: two's complement, low byte first; a value outside the
  range of a signed 16-bit integer raises \<open>struct.error\<close>.\<close>

definition int16 :: "int \<Rightarrow> bool" where
  "int16 x = (- 32768 \<le> x \<and> x \<le> 32767)"

definition struct_pack_h :: "int \<Rightarrow> py_error + byte list" where
  "struct_pack_h x =
     (if int16 x
      then Inr [word_of_int x, word_of_int (x div 256)]
      else Inl StructError)"

text \<open>\<open>x.to_bytes(n, "little")\<close>, unsigned: a negative value or one that does not fit
  into \<open>n\<close> bytes raises \<open>OverflowError\<close>.\<close>

fun le_bytes :: "nat \<Rightarrow> int \<Rightarrow> byte list" where
  "le_bytes 0 x = []"
| "le_bytes (Suc n) x = word_of_int x # le_bytes n (x div 256)"

definition to_bytes_little :: "int \<Rightarrow> nat \<Rightarrow> py_error + byte list" where
  "to_bytes_little x n =
     (if x < 0 \<or> 256 ^ n \<le> x then Inl OverflowError else Inr (le_bytes n x))"

definition uint16 :: "int \<Rightarrow> bool" where
  "uint16 x = (0 \<le> x \<and> x < 65536)"

text \<open>\<open>int.from_bytes(bs, "little")\<close>, unsigned, and its signed 16-bit reading (what
  \<open>struct.unpack("<h", bs)\<close> returns for two bytes).\<close>

fun from_bytes_little :: "byte list \<Rightarrow> int" where
  "from_bytes_little [] = 0"
| "from_bytes_little (b # bs) = uint b + 256 * from_bytes_little bs"

definition int16_of_le :: "byte list \<Rightarrow> int" where
  "int16_of_le bs =
     (let u = from_bytes_little bs in if 32768 \<le> u then u - 65536 else u)"

text \<open>\<open>bytearray([0] * n)\<close> and the slice assignment \<open>data[a:b] = bs\<close> for
  \<open>a \<le> b \<le> len(data)\<close>: the slice is replaced by \<open>bs\<close>, whatever its length.\<close>

definition bytearray_zeros :: "nat \<Rightarrow> byte list" where
  "bytearray_zeros n = replicate n 0"

definition set_slice :: "'a list \<Rightarrow> nat \<Rightarrow> nat \<Rightarrow> 'a list \<Rightarrow> 'a list" where
  "set_slice data a b bs = take a data @ bs @ drop b data"

text \<open>\<open>data[i] = v\<close> on a \<open>bytearray\<close>: \<open>v\<close> must lie in \<open>range(0, 256)\<close>, otherwise
  \<open>ValueError\<close>; an index beyond the end raises \<open>IndexError\<close>.\<close>

definition set_byte :: "byte list \<Rightarrow> nat \<Rightarrow> int \<Rightarrow> py_error + byte list" where
  "set_byte data i v =
     (if length data \<le> i then Inl IndexError
      else if v < 0 \<or> 256 \<le> v then Inl ValueError
      else Inr (data[i := word_of_int v]))"

subsection \<open>The command encoders (\<open>durin/actuator.py\<close>)\<close>

text \<open>Sequencing of calls that may raise: the first exception ends the computation.\<close>

definition bind_py :: "'e + 'a \<Rightarrow> ('a \<Rightarrow> 'e + 'b) \<Rightarrow> 'e + 'b" where
  "bind_py r f = (case r of Inl e \<Rightarrow> Inl e | Inr v \<Rightarrow> f v)"

text \<open>
  \<open>Move.encode\<close>: a 7-byte buffer, byte 0 the command id 2, then \<open>vel_x\<close>, \<open>vel_y\<close> and
  \<open>-rot\<close> packed as \<open>"<h"\<close> into the slices \<open>[1:3]\<close>, \<open>[3:5]\<close> and \<open>[5:7]\<close>, in the
  order of the statements (the first failing \<open>struct.pack\<close> raises).
\<close>

definition Move_encode :: "int \<Rightarrow> int \<Rightarrow> int \<Rightarrow> py_error + byte list" where
  "Move_encode vel_x vel_y rot =
     bind_py (struct_pack_h vel_x) (\<lambda>bx.
     bind_py (struct_pack_h vel_y) (\<lambda>by.
     bind_py (struct_pack_h (- rot)) (\<lambda>br.
       Inr (set_slice (set_slice (set_slice ((bytearray_zeros 7)[0 := 2]) 1 3 bx) 3 5 by) 5 7 br))))"

text \<open>\<open>MoveWheels.encode\<close>: 9 bytes, id 3, then \<open>-se\<close>, \<open>sw\<close>, \<open>-ne\<close>, \<open>nw\<close>.\<close>

definition MoveWheels_encode :: "int \<Rightarrow> int \<Rightarrow> int \<Rightarrow> int \<Rightarrow> py_error + byte list" where
  "MoveWheels_encode ne nw sw se =
     bind_py (struct_pack_h (- se)) (\<lambda>b1.
     bind_py (struct_pack_h sw) (\<lambda>b2.
     bind_py (struct_pack_h (- ne)) (\<lambda>b3.
     bind_py (struct_pack_h nw) (\<lambda>b4.
       Inr (set_slice (set_slice (set_slice (set_slice
              ((bytearray_zeros 9)[0 := 3]) 1 3 b1) 3 5 b2) 5 7 b3) 7 9 b4)))))"


text \<open>\<open>PowerOff.encode\<close>, \<open>PollAll.encode\<close> and \<open>StreamOff.encode\<close>: one byte, the
  command id that \<open>__init__\<close> stored (1, 16 and 19).\<close>

definition PowerOff_encode :: "py_error + byte list" where
  "PowerOff_encode = Inr ((bytearray_zeros 1)[0 := 1])"

definition PollAll_encode :: "py_error + byte list" where
  "PollAll_encode = Inr ((bytearray_zeros 1)[0 := 16])"

definition StreamOff_encode :: "py_error + byte list" where
  "StreamOff_encode = Inr ((bytearray_zeros 1)[0 := 19])"

text \<open>\<open>PollSensor.encode\<close>: id 17 and \<open>sensor_id.to_bytes(1, "little")\<close> in slice
  \<open>[1:2]\<close>.\<close>

definition PollSensor_encode :: "int \<Rightarrow> py_error + byte list" where
  "PollSensor_encode sensor_id =
     bind_py (to_bytes_little sensor_id 1) (\<lambda>b.
       Inr (set_slice ((bytearray_zeros 2)[0 := 17]) 1 2 b))"

subsection \<open>Text: \<open>str.split\<close>, \<open>int(str)\<close> and \<open>str(int)\<close>\<close>

text \<open>\<open>s.split(sep)\<close> for a separator of one character: the pieces between the
  separators, empty pieces included; never an empty list.\<close>

fun py_split :: "char \<Rightarrow> string \<Rightarrow> string list" where
  "py_split sep [] = [[]]"
| "py_split sep (c # cs) =
     (if c = sep then [] # py_split sep cs
      else (case py_split sep cs of
              [] \<Rightarrow> [[c]]
            | p # ps \<Rightarrow> (c # p) # ps))"

text \<open>\<open>xs[i]\<close> for \<open>i \<ge> 0\<close> on a list: \<open>IndexError\<close> beyond the end.\<close>

definition py_index :: "'a list \<Rightarrow> nat \<Rightarrow> py_error + 'a" where
  "py_index xs i = (if i < length xs then Inr (xs ! i) else Inl IndexError)"

definition is_digit :: "char \<Rightarrow> bool" where
  "is_digit c = (48 \<le> (of_char c :: nat) \<and> (of_char c :: nat) \<le> 57)"

definition digit_val :: "char \<Rightarrow> int" where
  "digit_val c = int (of_char c) - 48"

definition py_isspace :: "char \<Rightarrow> bool" where
  "py_isspace c = ((of_char c :: nat) \<in> {9, 10, 11, 12, 13, 32})"

text \<open>
  \<open>int(s)\<close> on ASCII text, base 10: surrounding whitespace is stripped, one sign is
  allowed, then decimal digits, where a single underscore may stand between two digits;
  anything else raises \<open>ValueError\<close>. \<open>py_digits\<close> reads what follows the first digit.
\<close>

fun py_digits :: "string \<Rightarrow> int \<Rightarrow> int option" where
  "py_digits [] acc = Some acc"
| "py_digits [c] acc = (if is_digit c then Some (10 * acc + digit_val c) else None)"
| "py_digits (c # d # ds) acc =
     (if is_digit c then py_digits (d # ds) (10 * acc + digit_val c)
      else if c = CHR ''_'' \<and> is_digit d then py_digits ds (10 * acc + digit_val d)
      else None)"

definition py_number :: "string \<Rightarrow> int option" where
  "py_number s =
     (case s of [] \<Rightarrow> None
      | c # cs \<Rightarrow> if is_digit c then py_digits cs (digit_val c) else None)"

definition py_strip :: "string \<Rightarrow> string" where
  "py_strip s = rev (dropWhile py_isspace (rev (dropWhile py_isspace s)))"

definition py_int :: "string \<Rightarrow> py_error + int" where
  "py_int s =
     (let t = py_strip s;
          r = (case t of [] \<Rightarrow> None
               | c # cs \<Rightarrow>
                   if c = CHR ''-'' then map_option uminus (py_number cs)
                   else if c = CHR ''+'' then py_number cs
                   else py_number t)
      in case r of None \<Rightarrow> Inl ValueError | Some v \<Rightarrow> Inr v)"

text \<open>\<open>str(n)\<close> for \<open>n \<ge> 0\<close>: the decimal digits, most significant first.\<close>

definition digit_char :: "nat \<Rightarrow> char" where
  "digit_char d = char_of (48 + d)"

fun str_nat :: "nat \<Rightarrow> string" where
  "str_nat n = (if n < 10 then [digit_char n] else str_nat (n div 10) @ [digit_char (n mod 10)])"

declare str_nat.simps [simp del]

text \<open>The dotted-quad text of four octets, as in \<open>"192.168.1.10"\<close>.\<close>

definition dotted_quad :: "nat \<Rightarrow> nat \<Rightarrow> nat \<Rightarrow> nat \<Rightarrow> string" where
  "dotted_quad a b c d =
     str_nat a @ CHR ''.'' # str_nat b @ CHR ''.'' # str_nat c @ CHR ''.'' # str_nat d"

text \<open>The number a string of digits denotes after the digits already read as \<open>acc\<close>
  (used to state what \<open>py_digits\<close> computes).\<close>

definition digits_value :: "int \<Rightarrow> string \<Rightarrow> int" where
  "digits_value acc ds = foldl (\<lambda>a c. 10 * a + digit_val c) acc ds"

text \<open>
  \<open>StreamOn.encode\<close>: 9 bytes, id 18; the first four pieces of \<open>host.split(".")\<close>,
  each read with \<open>int\<close> and stored as one byte (a missing piece raises \<open>IndexError\<close>, a
  piece that is no number or no byte value raises \<open>ValueError\<close>); then \<open>port\<close> and
  \<open>period\<close> as \<open>to_bytes(2, "little")\<close>. The statements run in the order of the source.
\<close>

definition StreamOn_encode :: "string \<Rightarrow> int \<Rightarrow> int \<Rightarrow> py_error + byte list" where
  "StreamOn_encode host port period =
     (let data0 = (bytearray_zeros 9)[0 := 18];
          hs = py_split CHR ''.'' host in
      bind_py (py_index hs 0) (\<lambda>h0. bind_py (py_int h0) (\<lambda>v0. bind_py (set_byte data0 1 v0) (\<lambda>data1.
      bind_py (py_index hs 1) (\<lambda>h1. bind_py (py_int h1) (\<lambda>v1. bind_py (set_byte data1 2 v1) (\<lambda>data2.
      bind_py (py_index hs 2) (\<lambda>h2. bind_py (py_int h2) (\<lambda>v2. bind_py (set_byte data2 3 v2) (\<lambda>data3.
      bind_py (py_index hs 3) (\<lambda>h3. bind_py (py_int h3) (\<lambda>v3. bind_py (set_byte data3 4 v3) (\<lambda>data4.
      bind_py (to_bytes_little port 2) (\<lambda>bp.
      bind_py (to_bytes_little period 2) (\<lambda>bq.
        Inr (set_slice (set_slice data4 5 7 bp) 7 9 bq))))))))))))))))"

text \<open>The closed set of commands, each with the fields its constructor stores (after
  the constructor's \<open>int(...)\<close> conversions), and the \<open>encode\<close> method of each class.\<close>

datatype command =
    PowerOff
  | Move int int int
  | MoveWheels int int int int
  | PollAll
  | PollSensor int
  | StreamOn string int int
  | StreamOff

fun cmd_id :: "command \<Rightarrow> byte" where
  "cmd_id PowerOff = 1"
| "cmd_id (Move vel_x vel_y rot) = 2"
| "cmd_id (MoveWheels ne nw sw se) = 3"
| "cmd_id PollAll = 16"
| "cmd_id (PollSensor sensor_id) = 17"
| "cmd_id (StreamOn host port period) = 18"
| "cmd_id StreamOff = 19"

fun encode :: "command \<Rightarrow> py_error + byte list" where
  "encode PowerOff = PowerOff_encode"
| "encode (Move vel_x vel_y rot) = Move_encode vel_x vel_y rot"
| "encode (MoveWheels ne nw sw se) = MoveWheels_encode ne nw sw se"
| "encode PollAll = PollAll_encode"
| "encode (PollSensor sensor_id) = PollSensor_encode sensor_id"
| "encode (StreamOn host port period) = StreamOn_encode host port period"
| "encode StreamOff = StreamOff_encode"


subsection \<open>The outbound queue and \<open>TCPLink.send\<close> (\<open>durin/io/network.py\<close>)\<close>

text \<open>
  A \<open>multiprocessing\<close> queue of capacity \<open>maxsize\<close> (the capacity the constructor
  settled on, which is positive: a non-positive argument stands for the platform's
  maximum): the items put and not yet taken, oldest first, and whether \<open>close()\<close> was
  called (\<open>TCPLink.stop\<close> closes both queues).
  \<open>put(obj, block=False, timeout=t)\<close> does not wait and does not look at \<open>t\<close>: on a
  closed queue it raises \<open>ValueError\<close>, on a full queue \<open>Full\<close>, otherwise the item is
  appended.
\<close>

record queue =
  maxsize :: nat
  items :: "byte list list"
  closed :: bool

definition put_nowait :: "queue \<Rightarrow> byte list \<Rightarrow> real \<Rightarrow> py_error + queue" where
  "put_nowait q obj timeout =
     (if closed q then Inl ValueError
      else if maxsize q \<le> length (items q) then Inl Full
      else Inr (q\<lparr>items := items q @ [obj]\<rparr>))"

text \<open>The link: its send queue, and the commands \<open>buffer_send.put\<close> was called with so
  far (\<open>put_calls\<close> only records the attempts; the code does not read it).\<close>

record tcp_link =
  buffer_send :: queue
  put_calls :: "byte list list"

text \<open>The link as \<open>__init__\<close> leaves it with the default \<open>buffer_size_send = 2\<close>.\<close>

definition TCPLink_init :: tcp_link where
  "TCPLink_init =
     \<lparr> buffer_send = \<lparr>maxsize = 2, items = [], closed = False\<rparr>, put_calls = [] \<rparr>"

text \<open>What \<open>TCPLink.stop\<close> does to the send queue: \<open>self.buffer_send.close()\<close>.\<close>

definition TCPLink_stop :: "tcp_link \<Rightarrow> tcp_link" where
  "TCPLink_stop link = link\<lparr>buffer_send := (buffer_send link)\<lparr>closed := True\<rparr>\<rparr>"

text \<open>\<open>TCPLink.send\<close>: one \<open>put\<close>; \<open>Full\<close> is caught and \<open>None\<close> returned, any other
  exception propagates. The result \<open>Inr ()\<close> is the return value \<open>None\<close>.\<close>

definition TCPLink_send :: "tcp_link \<Rightarrow> byte list \<Rightarrow> real \<Rightarrow> (py_error + unit) \<times> tcp_link" where
  "TCPLink_send link command timeout =
     (let link1 = link\<lparr>put_calls := put_calls link @ [command]\<rparr> in
      case put_nowait (buffer_send link) command timeout of
        Inl e \<Rightarrow> if e = Full then (Inr (), link1) else (Inl e, link1)
      | Inr q \<Rightarrow> (Inr (), link1\<lparr>buffer_send := q\<rparr>))"

subsection \<open>\<open>DurinActuator.__call__\<close> (\<open>durin/actuator.py\<close>)\<close>

text \<open>
  \<open>__call__(action, timeout)\<close> takes any object with an \<open>encode\<close> method; \<open>enc\<close> is that
  method. The result is \<open>Inr (Some [])\<close> for the empty reply list, \<open>Inr None\<close> for
  \<open>None\<close>. Reading byte 0 of an empty buffer raises \<open>IndexError\<close>; \<open>queue.Full\<close> from
  \<open>send\<close> is caught, any other exception propagates.
\<close>

definition DurinActuator_call ::
  "('a \<Rightarrow> py_error + byte list) \<Rightarrow> tcp_link \<Rightarrow> 'a \<Rightarrow> real
     \<Rightarrow> (py_error + byte list list option) \<times> tcp_link" where
  "DurinActuator_call enc link action timeout =
     (case enc action of
        Inl e \<Rightarrow> (Inl e, link)
      | Inr command_bytes \<Rightarrow>
          (case command_bytes of
             [] \<Rightarrow> (Inl IndexError, link)
           | b0 # rest \<Rightarrow>
               if b0 = 0 then (Inr (Some []), link)
               else (case TCPLink_send link command_bytes timeout of
                       (Inl e, link1) \<Rightarrow>
                         if e = Full then (Inr None, link1) else (Inl e, link1)
                     | (Inr u, link1) \<Rightarrow> (Inr None, link1))))"

subsection \<open>\<open>DVSServer._parse_command\<close> (\<open>durin/controller/server.py\<close>)\<close>

text \<open>\<open>data[a:b]\<close> on \<open>bytes\<close> for \<open>0 \<le> a \<le> b\<close>: the part that exists, never an error.\<close>

definition py_slice :: "'a list \<Rightarrow> nat \<Rightarrow> nat \<Rightarrow> 'a list" where
  "py_slice xs a b = take (b - a) (drop a xs)"

text \<open>
  \<open>str(ipaddress.ip_address(n))\<close> for \<open>0 \<le> n < 2 ^ 32\<close>, where \<open>ip_address\<close> builds an
  \<open>IPv4Address\<close>: the four octets of \<open>n\<close>, most significant first, in decimal, joined
  by dots. The server only passes the value of at most four bytes, which lies in this
  range (lemma \<open>from_bytes_little_bound\<close> below).
\<close>

definition str_ipv4 :: "int \<Rightarrow> string" where
  "str_ipv4 n =
     dotted_quad (nat ((n div 16777216) mod 256)) (nat ((n div 65536) mod 256))
       (nat ((n div 256) mod 256)) (nat (n mod 256))"

text \<open>The streamer is any object with the two methods; each may raise.\<close>

record 's streamer =
  start_stream :: "string \<Rightarrow> int \<Rightarrow> 's \<Rightarrow> py_error + 's"
  stop_stream :: "'s \<Rightarrow> py_error + 's"

definition parse_command :: "'s streamer \<Rightarrow> byte list \<Rightarrow> 's \<Rightarrow> py_error + 's" where
  "parse_command str data s =
     (if length data = 0 then Inr s
      else if data ! 0 = 0 then
        (let host_ip = str_ipv4 (from_bytes_little (py_slice data 1 5));
             port = from_bytes_little (py_slice data 5 7)
         in start_stream str host_ip port s)
      else stop_stream str s)"

text \<open>A streamer that only records the calls made on it, in order.\<close>

datatype streamer_call = Start_stream string int | Stop_stream

definition recorder :: "streamer_call list streamer" where
  "recorder =
     \<lparr> start_stream = (\<lambda>host port calls. Inr (calls @ [Start_stream host port])),
       stop_stream = (\<lambda>calls. Inr (calls @ [Stop_stream])) \<rparr>"


subsection \<open>The telemetry aggregator (\<open>durin/sensor.py\<close>)\<close>

text \<open>
  The sensor-id table \<open>SENSORS\<close> of \<open>durin/io/__init__.py\<close> is not part of the sources
  at hand; it is a parameter.
\<close>

text \<open>
  A floating-point value: a finite number, an infinity or not-a-number. Arithmetic on
  finite doubles is idealised as arithmetic on \<open>real\<close>; what is modelled exactly is the
  narrowing of a value that is stored into a single-precision cell.
\<close>

datatype float64 = Finite real | PosInf | NegInf | NaN

text \<open>
  Storing into a cell of a shared \<open>"f"\<close> array or value (\<open>tof\<close>, \<open>charge\<close>, \<open>voltage\<close>)
  converts the value to IEEE binary32: the nearest number with a 24-bit significand and
  an exponent from \<open>-126\<close> (below it, multiples of \<open>2 ^ -149\<close>), ties to the even
  significand, and an infinity when the rounded value reaches \<open>2 ^ 128\<close>. \<open>binade n a e\<close>
  finds the exponent of \<open>a\<close> by stepping up from \<open>e\<close>, at most \<open>n\<close> times. Cells of
  \<open>"d"\<close> arrays (\<open>imu\<close>, \<open>ringbuffer\<close>) hold doubles and store a value as it is.
\<close>

fun binade :: "nat \<Rightarrow> real \<Rightarrow> int \<Rightarrow> int" where
  "binade 0 a e = e"
| "binade (Suc n) a e = (if a < 2 powi (e + 1) then e else binade n a (e + 1))"

definition round_half_even :: "real \<Rightarrow> int" where
  "round_half_even q =
     (let f = \<lfloor>q\<rfloor>; r = q - of_int f
      in if r < 1 / 2 then f
         else if 1 / 2 < r then f + 1
         else if even f then f else f + 1)"

definition float32_of_real :: "real \<Rightarrow> float64" where
  "float32_of_real x =
     (if x = 0 then Finite 0
      else
        (let e = binade 254 \<bar>x\<bar> (- 126);
             ulp = 2 powi (e - 23);
             y = of_int (round_half_even (x / ulp)) * ulp
         in if 2 powi 128 \<le> \<bar>y\<bar> then (if 0 < x then PosInf else NegInf)
            else Finite y))"

definition c_float :: "float64 \<Rightarrow> float64" where
  "c_float v = (case v of Finite x \<Rightarrow> float32_of_real x | _ \<Rightarrow> v)"

record sensors =
  tof_a :: int
  tof_b :: int
  tof_c :: int
  tof_d :: int
  misc :: int
  uwb :: int

text \<open>What the claims assume of the table: the four time-of-flight ids are consecutive
  and \<open>misc\<close> is none of them.\<close>

definition sensors_wf :: "sensors \<Rightarrow> bool" where
  "sensors_wf S =
     (tof_b S = tof_a S + 1 \<and> tof_c S = tof_a S + 2 \<and> tof_d S = tof_a S + 3 \<and>
      (misc S < tof_a S \<or> tof_d S < misc S))"

text \<open>The payload of a decoded datagram: an \<open>ndarray\<close> of two or more axes (such as
  the \<open>(2, 8, 8)\<close> depth slices), given by what \<open>reshape(-1)\<close> returns (its elements in
  row-major order), or the sequence \<open>[charge, voltage, imu]\<close> whose third element is an
  \<open>ndarray\<close>. With the wrong kind of payload for its id the code raises: a sequence has
  no \<open>reshape\<close>, and a sub-array cannot be stored into a scalar cell.\<close>

datatype payload =
    NdArray "float64 list"
  | Sequence3 float64 float64 "float64 list"

record sensor_state =
  tof :: "float64 list"
  charge :: float64
  voltage :: float64
  imu :: "float64 list"
  uwb_value :: float64
  ringbuffer :: "real list"
  ringbuffer_idx :: nat
  timestamp_update :: real

text \<open>\<open>arr[a:b] = vs\<close> on a shared \<open>ctypes\<close> array, \<open>0 \<le> a\<close>: the bounds are clipped to
  the array, and \<open>vs\<close> must have exactly the length of the slice (\<open>ValueError\<close>
  otherwise); the array never changes its length. \<open>vs\<close> is given as the cells will
  hold it, that is after the conversion to the cell type.\<close>

definition ctypes_set_slice :: "'a list \<Rightarrow> nat \<Rightarrow> nat \<Rightarrow> 'a list \<Rightarrow> py_error + 'a list" where
  "ctypes_set_slice arr a b vs =
     (let start = min a (length arr);
          stop = max start (min b (length arr))
      in if length vs = stop - start
         then Inr (take start arr @ vs @ drop stop arr)
         else Inl ValueError)"

text \<open>
  Modelled from the spec: \<open>RingBuffer\<close> (\<open>durin/io/ringbuffer.py\<close>) is missing from the
  sources. The spec describes a fixed-capacity circular buffer of inter-update time
  deltas into which each delta is pushed, overwriting the oldest entry on overflow:
  the new value is written at the position \<open>counter\<close>, which then advances by one and
  wraps around at the capacity.
\<close>

record ring_buffer =
  buffer :: "real list"
  counter :: nat

definition RingBuffer_append :: "ring_buffer \<Rightarrow> real \<Rightarrow> ring_buffer" where
  "RingBuffer_append rb x =
     rb\<lparr>buffer := (buffer rb)[counter rb := x],
        counter := (counter rb + 1) mod length (buffer rb)\<rparr>"

text \<open>Statements in sequence on the shared state: an exception stops the method and
  leaves the state as the statements before it made it.\<close>

definition and_then ::
  "py_error option \<times> 's \<Rightarrow> ('s \<Rightarrow> py_error option \<times> 's) \<Rightarrow> py_error option \<times> 's" where
  "and_then r f = (case r of (None, s) \<Rightarrow> f s | (Some e, s) \<Rightarrow> (Some e, s))"

text \<open>The three parts of \<open>DurinSensor.consume\<close>, in the order of the source: the
  time-of-flight branch, the \<open>misc\<close> branch, and the update of the frequency estimator,
  which is outside both conditionals.\<close>

definition tof_index :: "sensors \<Rightarrow> int \<Rightarrow> nat" where
  "tof_index SENSORS sensor_id = nat ((sensor_id - tof_a SENSORS) * 2)"

definition consume_tof :: "sensors \<Rightarrow> int \<Rightarrow> payload \<Rightarrow> sensor_state \<Rightarrow> py_error option \<times> sensor_state" where
  "consume_tof SENSORS sensor_id data s =
     (if tof_a SENSORS \<le> sensor_id \<and> sensor_id \<le> tof_d SENSORS then
        (let idx = tof_index SENSORS sensor_id in
         case data of
           NdArray vs \<Rightarrow>
             (case ctypes_set_slice (tof s) (idx * 64) ((idx + 2) * 64) (map c_float vs) of
                Inl e \<Rightarrow> (Some e, s)
              | Inr t \<Rightarrow> (None, s\<lparr>tof := t\<rparr>))
         | Sequence3 c v m \<Rightarrow> (Some AttributeError, s))
      else (None, s))"

definition consume_misc :: "sensors \<Rightarrow> int \<Rightarrow> payload \<Rightarrow> sensor_state \<Rightarrow> py_error option \<times> sensor_state" where
  "consume_misc SENSORS sensor_id data s =
     (if sensor_id = misc SENSORS then
        (case data of
           NdArray vs \<Rightarrow> (Some TypeError, s)
         | Sequence3 c v m \<Rightarrow>
             (let s1 = s\<lparr>charge := c_float c, voltage := c_float v\<rparr> in
              case ctypes_set_slice (imu s1) 0 (length (imu s1)) m of
                Inl e \<Rightarrow> (Some e, s1)
              | Inr i \<Rightarrow> (None, s1\<lparr>imu := i\<rparr>)))
      else (None, s))"

definition update_hz :: "real \<Rightarrow> sensor_state \<Rightarrow> py_error option \<times> sensor_state" where
  "update_hz time_now s =
     (let rb = RingBuffer_append
                 \<lparr>buffer = ringbuffer s, counter = ringbuffer_idx s\<rparr>
                 (time_now - timestamp_update s)
      in case ctypes_set_slice (ringbuffer s) 0 (length (ringbuffer s)) (buffer rb) of
           Inl e \<Rightarrow> (Some e, s)
         | Inr r \<Rightarrow>
             (None, s\<lparr>ringbuffer := r, ringbuffer_idx := counter rb,
                      timestamp_update := time_now\<rparr>))"

text \<open>\<open>consume(item, ...)\<close> with \<open>item = (sensor_id, data)\<close>; \<open>time_now\<close> is what
  \<open>time.time()\<close> returns.\<close>

definition consume :: "sensors \<Rightarrow> real \<Rightarrow> int \<times> payload \<Rightarrow> sensor_state \<Rightarrow> py_error option \<times> sensor_state" where
  "consume SENSORS time_now item s =
     (case item of (sensor_id, data) \<Rightarrow>
        and_then (and_then (consume_tof SENSORS sensor_id data s)
                           (consume_misc SENSORS sensor_id data))
                 (update_hz time_now))"





text \<open>The layers \<open>[a:b]\<close> of the depth volume that \<open>read\<close> reshapes to \<open>(8, 8, 8)\<close>: each
  layer is 64 consecutive cells of the flat array.\<close>

definition tof_layers :: "float64 list \<Rightarrow> nat \<Rightarrow> nat \<Rightarrow> float64 list" where
  "tof_layers t a b = py_slice t (a * 64) (b * 64)"


text \<open>A table with the shape the claims assume, for examples.\<close>

definition example_SENSORS :: sensors where
  "example_SENSORS =
     \<lparr> tof_a = 128, tof_b = 129, tof_c = 130, tof_d = 131, misc = 132, uwb = 133 \<rparr>"

text \<open>The state \<open>__init__\<close> creates: zeroed shared arrays, the time of construction.\<close>

definition initial_state :: "real \<Rightarrow> sensor_state" where
  "initial_state t0 =
     \<lparr> tof = replicate 512 (Finite 0), charge = Finite 0, voltage = Finite 0,
       imu = replicate 9 (Finite 0), uwb_value = Finite 0,
       ringbuffer = replicate 50 0, ringbuffer_idx = 0, timestamp_update = t0 \<rparr>"





subsection \<open>\<open>AEStreamer.stop_stream\<close> (\<open>durin/controller/server.py\<close>)\<close>

text \<open>
  The streamer holds two process handles. What the operating system answers is the
  environment: for each group of calls of the \<open>try\<close> block, the exception its first
  failing call raises, if any.
\<close>

record aestreamer =
  aestream :: "nat option"
  aestream_log :: "nat option"

record os_env =
  popen_calls :: "py_error option"
  process_calls :: "py_error option"
  pkill_call :: "py_error option"

definition os_result :: "py_error option \<Rightarrow> py_error + unit" where
  "os_result r = (case r of None \<Rightarrow> Inr () | Some e \<Rightarrow> Inl e)"

text \<open>The body of the \<open>try\<close> block: \<open>terminate\<close>, \<open>wait(1)\<close>, \<open>kill\<close>, \<open>wait\<close> on the
  stream process if there is one; \<open>terminate\<close>, \<open>join\<close> on the log process if there is
  one; \<open>pkill\<close>; then both handles are reset.\<close>

definition stop_stream_body :: "os_env \<Rightarrow> aestreamer \<Rightarrow> py_error + aestreamer" where
  "stop_stream_body env s =
     bind_py (if aestream s \<noteq> None then os_result (popen_calls env) else Inr ()) (\<lambda>u1.
     bind_py (if aestream_log s \<noteq> None then os_result (process_calls env) else Inr ()) (\<lambda>u2.
     bind_py (os_result (pkill_call env)) (\<lambda>u3.
       Inr (s\<lparr>aestream := None, aestream_log := None\<rparr>))))"

text \<open>\<open>except Exception\<close>: a warning is logged and the method returns; the handles stay
  as they were when the exception was raised.\<close>

definition AEStreamer_stop_stream :: "os_env \<Rightarrow> aestreamer \<Rightarrow> py_error + aestreamer" where
  "AEStreamer_stop_stream env s =
     (case stop_stream_body env s of
        Inl e \<Rightarrow> Inr s
      | Inr s1 \<Rightarrow> Inr s1)"

subsection \<open>\<open>DVSClient\<close> (\<open>durin/io/network.py\<close>)\<close>

text \<open>
  A socket is known by whether \<open>connect\<close> succeeded on it. The network is the
  environment: the answers to the coming \<open>send\<close> and \<open>connect\<close> calls, in order
  (\<open>None\<close>: the call succeeds; beyond the end of the list every call succeeds), and
  the messages handed over by successful \<open>send\<close> calls so far.
\<close>

datatype socket = Socket bool

record dvs_client =
  sock :: "socket option"

record network =
  answers :: "py_error option list"
  sent :: "byte list list"

definition next_answer :: "network \<Rightarrow> py_error option \<times> network" where
  "next_answer n =
     (case answers n of
        [] \<Rightarrow> (None, n)
      | a # as \<Rightarrow> (a, n\<lparr>answers := as\<rparr>))"

definition sock_send :: "network \<Rightarrow> byte list \<Rightarrow> py_error option \<times> network" where
  "sock_send n message =
     (case next_answer n of
        (None, n1) \<Rightarrow> (None, n1\<lparr>sent := sent n1 @ [message]\<rparr>)
      | (Some e, n1) \<Rightarrow> (Some e, n1))"

text \<open>
  \<open>_send_message\<close>: \<open>self.sock.send(message)\<close>, which raises \<open>AttributeError\<close> while
  \<open>self.sock\<close> is \<open>None\<close>. On \<open>BrokenPipeError\<close> or \<open>AttributeError\<close> a new socket is
  stored and connected (\<open>_init_connection\<close>), and the method calls itself; any other
  exception propagates. The first argument is the recursion depth Python still allows:
  at depth 0 the call raises \<open>RecursionError\<close>.
\<close>

fun send_message ::
  "nat \<Rightarrow> dvs_client \<Rightarrow> network \<Rightarrow> byte list \<Rightarrow> (py_error + unit) \<times> dvs_client \<times> network" where
  "send_message 0 c n message = (Inl RecursionError, c, n)"
| "send_message (Suc depth) c n message =
     (case (case sock c of
              None \<Rightarrow> (Some AttributeError, n)
            | Some sk \<Rightarrow> sock_send n message) of
        (None, n1) \<Rightarrow> (Inr (), c, n1)
      | (Some e, n1) \<Rightarrow>
          if e = BrokenPipeError \<or> e = AttributeError then
            (case next_answer n1 of
               (None, n2) \<Rightarrow> send_message depth (c\<lparr>sock := Some (Socket True)\<rparr>) n2 message
             | (Some e2, n2) \<Rightarrow> (Inl e2, c\<lparr>sock := Some (Socket False)\<rparr>, n2))
          else (Inl e, c, n1))"

text \<open>\<open>DVSClient.stop_stream\<close>: nothing while \<open>self.sock\<close> is \<open>None\<close>; otherwise the stop
  message \<open>[1]\<close> is sent, the socket closed and \<open>self.sock\<close> reset.\<close>

definition DVSClient_stop_stream ::
  "nat \<Rightarrow> dvs_client \<Rightarrow> network \<Rightarrow> (py_error + unit) \<times> dvs_client \<times> network" where
  "DVSClient_stop_stream depth c n =
     (case sock c of
        None \<Rightarrow> (Inr (), c, n)
      | Some sk \<Rightarrow>
          (case send_message depth c n [1] of
             (Inl e, c1, n1) \<Rightarrow> (Inl e, c1, n1)
           | (Inr u, c1, n1) \<Rightarrow> (Inr (), c1\<lparr>sock := None\<rparr>, n1)))"

section \<open>Properties\<close>


subsection \<open>Helper facts: buffers, slices, little-endian integers\<close>

lemma bind_py_Inr: "bind_py (Inr v) f = f v"
  by (simp add: bind_py_def)

lemma bind_py_Inl: "bind_py (Inl e) f = Inl e"
  by (simp add: bind_py_def)

lemma bytearray_zeros_1: "bytearray_zeros 1 = [0]"
  by (simp add: bytearray_zeros_def)

lemma bytearray_zeros_2: "bytearray_zeros 2 = [0, 0]"
  by (simp add: bytearray_zeros_def eval_nat_numeral)

lemma bytearray_zeros_7: "bytearray_zeros 7 = [0, 0, 0, 0, 0, 0, 0]"
  by (simp add: bytearray_zeros_def eval_nat_numeral)

lemma bytearray_zeros_9: "bytearray_zeros 9 = [0, 0, 0, 0, 0, 0, 0, 0, 0]"
  by (simp add: bytearray_zeros_def eval_nat_numeral)

lemma set_slice_1_2: "set_slice (x0 # x1 # xs) 1 2 [a] = x0 # a # xs"
  by (simp add: set_slice_def)

lemma set_slice_1_3: "set_slice (x0 # x1 # x2 # xs) 1 3 [a, b] = x0 # a # b # xs"
  by (simp add: set_slice_def)

lemma set_slice_3_5:
  "set_slice (x0 # x1 # x2 # x3 # x4 # xs) 3 5 [a, b] = x0 # x1 # x2 # a # b # xs"
  by (simp add: set_slice_def)

lemma set_slice_5_7:
  "set_slice (x0 # x1 # x2 # x3 # x4 # x5 # x6 # xs) 5 7 [a, b] =
   x0 # x1 # x2 # x3 # x4 # a # b # xs"
  by (simp add: set_slice_def)

lemma set_slice_7_9:
  "set_slice (x0 # x1 # x2 # x3 # x4 # x5 # x6 # x7 # x8 # xs) 7 9 [a, b] =
   x0 # x1 # x2 # x3 # x4 # x5 # x6 # a # b # xs"
  by (simp add: set_slice_def)

lemmas set_slice_pairs = set_slice_1_3 set_slice_3_5 set_slice_5_7 set_slice_7_9

text \<open>Reading back the two bytes that \<open>struct.pack("<h", x)\<close> writes gives \<open>x\<close>.\<close>

lemma int16_roundtrip:
  assumes "int16 x"
  shows "int16_of_le [word_of_int x, word_of_int (x div 256)] = x"
proof -
  from assms have range: "- 32768 \<le> x" "x \<le> 32767"
    by (simp_all add: int16_def)
  have lo: "uint (word_of_int x :: byte) = x mod 256"
    by (simp add: uint_word_of_int)
  have hi: "uint (word_of_int (x div 256) :: byte) = (x div 256) mod 256"
    by (simp add: uint_word_of_int)
  have u: "from_bytes_little [word_of_int x, word_of_int (x div 256)] = x mod 65536"
    using zmod_zmult2_eq [of 256 x 256] by (simp add: lo hi)
  have v: "int16_of_le [word_of_int x, word_of_int (x div 256)] =
      (if 32768 \<le> x mod 65536 then x mod 65536 - 65536 else x mod 65536)"
    by (simp only: int16_of_le_def u Let_def)
  show ?thesis
  proof (cases "0 \<le> x")
    case True
    with range have "x mod 65536 = x" by simp
    with range show ?thesis by (simp add: v)
  next
    case False
    with range have "(x + 65536) mod 65536 = x + 65536"
      by (intro mod_pos_pos_trivial) simp_all
    then have "x mod 65536 = x + 65536" by simp
    with False range show ?thesis by (simp add: v)
  qed
qed

lemma struct_pack_h_int16:
  "int16 x \<Longrightarrow> struct_pack_h x = Inr [word_of_int x, word_of_int (x div 256)]"
  by (simp add: struct_pack_h_def)

lemma struct_pack_h_not_int16: "\<not> int16 x \<Longrightarrow> struct_pack_h x = Inl StructError"
  by (simp add: struct_pack_h_def)

lemma Move_encode_bytes:
  assumes "struct_pack_h vx = Inr [a1, a2]" "struct_pack_h vy = Inr [b1, b2]"
    "struct_pack_h (- rot) = Inr [c1, c2]"
  shows "Move_encode vx vy rot = Inr [2, a1, a2, b1, b2, c1, c2]"
  by (simp only: Move_encode_def assms bind_py_Inr bytearray_zeros_7 list_update_code
      set_slice_pairs)

lemma MoveWheels_encode_bytes:
  assumes "struct_pack_h (- se) = Inr [a1, a2]" "struct_pack_h sw = Inr [b1, b2]"
    "struct_pack_h (- ne) = Inr [c1, c2]" "struct_pack_h nw = Inr [d1, d2]"
  shows "MoveWheels_encode ne nw sw se = Inr [3, a1, a2, b1, b2, c1, c2, d1, d2]"
  by (simp only: MoveWheels_encode_def assms bind_py_Inr bytearray_zeros_9 list_update_code
      set_slice_pairs)

lemma Move_encode_int16:
  assumes "int16 vx" "int16 vy" "int16 (- rot)"
  shows "Move_encode vx vy rot =
      Inr [2, word_of_int vx, word_of_int (vx div 256), word_of_int vy,
           word_of_int (vy div 256), word_of_int (- rot), word_of_int (- rot div 256)]"
  by (rule Move_encode_bytes) (rule struct_pack_h_int16, rule assms)+

lemma MoveWheels_encode_int16:
  assumes "int16 (- se)" "int16 sw" "int16 (- ne)" "int16 nw"
  shows "MoveWheels_encode ne nw sw se =
      Inr [3, word_of_int (- se), word_of_int (- se div 256), word_of_int sw,
           word_of_int (sw div 256), word_of_int (- ne), word_of_int (- ne div 256),
           word_of_int nw, word_of_int (nw div 256)]"
  by (rule MoveWheels_encode_bytes) (rule struct_pack_h_int16, rule assms)+

subsection \<open>Claim C1: the layout of \<open>Move\<close> and \<open>MoveWheels\<close>\<close>

text \<open>
  The claim as written fails where a negated field leaves the 16-bit range: \<open>rot\<close>,
  \<open>se\<close> or \<open>ne\<close> equal to \<open>-32768\<close> is representable, its negation \<open>32768\<close> is not, and
  \<open>struct.pack\<close> raises.
\<close>

theorem Move_encode_int16_fields_counterexample:
  "int16 0 \<and> int16 (- 32768) \<and> Move_encode 0 0 (- 32768) = Inl StructError"
proof -
  have z: "int16 0" and m: "int16 (- 32768)" and n: "\<not> int16 (- (- 32768))"
    by (simp_all add: int16_def)
  have "Move_encode 0 0 (- 32768) = Inl StructError"
    by (simp only: Move_encode_def struct_pack_h_int16 [OF z] struct_pack_h_not_int16 [OF n]
        bind_py_Inr bind_py_Inl)
  with z m show ?thesis by blast
qed

text \<open>
  Claim C1, amended: whenever the values that are packed (\<open>vx\<close>, \<open>vy\<close>, \<open>-rot\<close>; and
  \<open>-se\<close>, \<open>sw\<close>, \<open>-ne\<close>, \<open>nw\<close>) are representable as signed 16-bit integers,
  \<open>Move.encode\<close> returns exactly 7 bytes, the id 2 followed by three byte pairs that read
  back, little-endian and signed, as \<open>vx\<close>, \<open>vy\<close> and \<open>-rot\<close>, and \<open>MoveWheels.encode\<close>
  returns exactly 9 bytes, the id 3 followed by four pairs that read back as \<open>-se\<close>,
  \<open>sw\<close>, \<open>-ne\<close> and \<open>nw\<close>; and \<open>Move(300, -150, 90)\<close> encodes to
  \<open>[2, 0x2C, 0x01, 0x6A, 0xFF, 0xA6, 0xFF]\<close>.
\<close>

theorem Move_MoveWheels_encode_layout:
  "(int16 vx \<and> int16 vy \<and> int16 (- rot) \<longrightarrow>
      (\<exists>a1 a2 b1 b2 c1 c2.
         Move_encode vx vy rot = Inr [2, a1, a2, b1, b2, c1, c2] \<and>
         int16_of_le [a1, a2] = vx \<and> int16_of_le [b1, b2] = vy \<and>
         int16_of_le [c1, c2] = - rot)) \<and>
   (int16 (- se) \<and> int16 sw \<and> int16 (- ne) \<and> int16 nw \<longrightarrow>
      (\<exists>a1 a2 b1 b2 c1 c2 d1 d2.
         MoveWheels_encode ne nw sw se = Inr [3, a1, a2, b1, b2, c1, c2, d1, d2] \<and>
         int16_of_le [a1, a2] = - se \<and> int16_of_le [b1, b2] = sw \<and>
         int16_of_le [c1, c2] = - ne \<and> int16_of_le [d1, d2] = nw)) \<and>
   Move_encode 300 (- 150) 90 = Inr [2, 0x2C, 0x01, 0x6A, 0xFF, 0xA6, 0xFF]"
proof (intro conjI impI)
  assume r: "int16 vx \<and> int16 vy \<and> int16 (- rot)"
  then have x: "int16 vx" and y: "int16 vy" and z: "int16 (- rot)"
    by blast+
  show "\<exists>a1 a2 b1 b2 c1 c2.
         Move_encode vx vy rot = Inr [2, a1, a2, b1, b2, c1, c2] \<and>
         int16_of_le [a1, a2] = vx \<and> int16_of_le [b1, b2] = vy \<and>
         int16_of_le [c1, c2] = - rot"
    using Move_encode_int16 [OF x y z] int16_roundtrip [OF x] int16_roundtrip [OF y]
      int16_roundtrip [OF z]
    by blast
next
  assume r: "int16 (- se) \<and> int16 sw \<and> int16 (- ne) \<and> int16 nw"
  then have a: "int16 (- se)" and b: "int16 sw" and c: "int16 (- ne)" and d: "int16 nw"
    by blast+
  show "\<exists>a1 a2 b1 b2 c1 c2 d1 d2.
         MoveWheels_encode ne nw sw se = Inr [3, a1, a2, b1, b2, c1, c2, d1, d2] \<and>
         int16_of_le [a1, a2] = - se \<and> int16_of_le [b1, b2] = sw \<and>
         int16_of_le [c1, c2] = - ne \<and> int16_of_le [d1, d2] = nw"
    using MoveWheels_encode_int16 [OF a b c d] int16_roundtrip [OF a] int16_roundtrip [OF b]
      int16_roundtrip [OF c] int16_roundtrip [OF d]
    by blast
next
  have x: "int16 300" and y: "int16 (- 150)" and z: "int16 (- 90)"
    by (simp_all add: int16_def)
  show "Move_encode 300 (- 150) 90 = Inr [2, 0x2C, 0x01, 0x6A, 0xFF, 0xA6, 0xFF]"
    using Move_encode_int16 [OF x y z] by simp
qed

theorem Move_MoveWheels_encode_layout_witness:
  "(int16 300 \<and> int16 (- 150) \<and> int16 (- 90)) \<and>
   (int16 (- 4) \<and> int16 3 \<and> int16 (- 1) \<and> int16 2) \<and>
   (\<exists>a1 a2 b1 b2 c1 c2.
      Move_encode 300 (- 150) 90 = Inr [2, a1, a2, b1, b2, c1, c2] \<and>
      int16_of_le [a1, a2] = 300 \<and> int16_of_le [b1, b2] = - 150 \<and>
      int16_of_le [c1, c2] = - 90) \<and>
   (\<exists>a1 a2 b1 b2 c1 c2 d1 d2.
      MoveWheels_encode 1 2 3 4 = Inr [3, a1, a2, b1, b2, c1, c2, d1, d2] \<and>
      int16_of_le [a1, a2] = - 4 \<and> int16_of_le [b1, b2] = 3 \<and>
      int16_of_le [c1, c2] = - 1 \<and> int16_of_le [d1, d2] = 2)"
proof -
  have h1: "int16 300 \<and> int16 (- 150) \<and> int16 (- 90)"
    by (simp add: int16_def)
  have h2: "int16 (- 4) \<and> int16 3 \<and> int16 (- 1) \<and> int16 2"
    by (simp add: int16_def)
  note t = Move_MoveWheels_encode_layout [of 300 "- 150" 90 4 3 1 2]
  show ?thesis
    by (rule conjI [OF h1 conjI [OF h2 conjI
          [OF t [THEN conjunct1, THEN mp, OF h1]
              t [THEN conjunct2, THEN conjunct1, THEN mp, OF h2]]]])
qed


subsection \<open>Helper facts: text and the host of \<open>StreamOn\<close>\<close>

lemma py_split_no_sep: "sep \<notin> set s \<Longrightarrow> py_split sep s = [s]"
  by (induction s) auto

lemma py_split_append:
  "sep \<notin> set s \<Longrightarrow> py_split sep (s @ sep # rest) = s # py_split sep rest"
  by (induction s) auto

lemma is_digit_digit_char: "d < 10 \<Longrightarrow> is_digit (digit_char d)"
  by (simp add: is_digit_def digit_char_def)

lemma digit_val_digit_char: "d < 10 \<Longrightarrow> digit_val (digit_char d) = int d"
  by (simp add: digit_val_def digit_char_def)

lemma str_nat_digits: "c \<in> set (str_nat n) \<Longrightarrow> is_digit c"
proof (induction n rule: str_nat.induct)
  case (1 n)
  show ?case
  proof (cases "n < 10")
    case True
    with "1.prems" show ?thesis
      by (simp add: str_nat.simps [of n] is_digit_digit_char)
  next
    case False
    with "1.prems" "1.IH" show ?thesis
      by (auto simp: str_nat.simps [of n] is_digit_digit_char)
  qed
qed

lemma str_nat_not_Nil: "str_nat n \<noteq> []"
  by (simp add: str_nat.simps [of n])

lemma py_digits_all_digits:
  "(\<And>c. c \<in> set ds \<Longrightarrow> is_digit c) \<Longrightarrow> py_digits ds acc = Some (digits_value acc ds)"
  by (induction ds acc rule: py_digits.induct) (simp_all add: digits_value_def)

lemma py_number_all_digits:
  assumes "ds \<noteq> []" "\<And>c. c \<in> set ds \<Longrightarrow> is_digit c"
  shows "py_number ds = Some (digits_value 0 ds)"
proof (cases ds)
  case Nil
  with assms show ?thesis by simp
next
  case (Cons c cs)
  with assms have "is_digit c" "\<And>d. d \<in> set cs \<Longrightarrow> is_digit d" by auto
  then show ?thesis
    by (simp add: py_number_def Cons py_digits_all_digits) (simp add: digits_value_def)
qed

lemma digits_value_str_nat: "digits_value 0 (str_nat n) = int n"
proof (induction n rule: str_nat.induct)
  case (1 n)
  show ?case
  proof (cases "n < 10")
    case True
    then show ?thesis
      by (simp add: str_nat.simps [of n] digits_value_def digit_val_digit_char)
  next
    case False
    with "1.IH" have "digits_value 0 (str_nat (n div 10)) = int (n div 10)" by simp
    moreover have "10 * int (n div 10) + int (n mod 10) = int n" by arith
    ultimately show ?thesis
      using False by (simp add: str_nat.simps [of n] digits_value_def digit_val_digit_char)
  qed
qed

lemma is_digit_not_space: "is_digit c \<Longrightarrow> \<not> py_isspace c"
  by (auto simp: is_digit_def py_isspace_def)

lemma is_digit_not_sign: "is_digit c \<Longrightarrow> c \<noteq> CHR ''-'' \<and> c \<noteq> CHR ''+'' \<and> c \<noteq> CHR ''.''"
  by (auto simp: is_digit_def)

lemma dropWhile_id: "s \<noteq> [] \<Longrightarrow> \<not> P (hd s) \<Longrightarrow> dropWhile P s = s"
  by (cases s) simp_all

lemma py_strip_digits:
  assumes "s \<noteq> []" "\<And>c. c \<in> set s \<Longrightarrow> is_digit c"
  shows "py_strip s = s"
proof -
  from assms have "\<not> py_isspace (hd s)" by (simp add: is_digit_not_space)
  with assms have a: "dropWhile py_isspace s = s" by (simp add: dropWhile_id)
  from assms have "rev s \<noteq> []" "\<not> py_isspace (hd (rev s))"
    by (simp_all add: is_digit_not_space hd_rev)
  then have "dropWhile py_isspace (rev s) = rev s" by (rule dropWhile_id)
  with a show ?thesis by (simp add: py_strip_def)
qed

lemma py_int_str_nat: "py_int (str_nat n) = Inr (int n)"
proof -
  let ?s = "str_nat n"
  have ne: "?s \<noteq> []" by (rule str_nat_not_Nil)
  have dg: "\<And>c. c \<in> set ?s \<Longrightarrow> is_digit c" by (rule str_nat_digits)
  from ne obtain c cs where s: "?s = c # cs" by (cases ?s) auto
  with dg have "is_digit c" by simp
  then have c: "c \<noteq> CHR ''-''" "c \<noteq> CHR ''+''" using is_digit_not_sign by blast+
  have "py_number ?s = Some (int n)"
    using py_number_all_digits [OF ne dg] by (simp only: digits_value_str_nat)
  then have "py_number (c # cs) = Some (int n)"
    by (simp only: s)
  moreover have "py_strip (c # cs) = c # cs"
    using py_strip_digits [OF ne dg] by (simp add: s)
  ultimately have "py_int (c # cs) = Inr (int n)"
    using c by (simp add: py_int_def Let_def)
  then show ?thesis by (simp add: s)
qed

lemma dot_not_in_str_nat: "CHR ''.'' \<notin> set (str_nat n)"
  using str_nat_digits is_digit_not_sign by blast

lemma py_split_dotted_quad:
  "py_split CHR ''.'' (dotted_quad a b c d) = [str_nat a, str_nat b, str_nat c, str_nat d]"
  by (simp add: dotted_quad_def py_split_append py_split_no_sep dot_not_in_str_nat)

lemma py_index_0: "py_index (x0 # xs) 0 = Inr x0"
  by (simp add: py_index_def)

lemma py_index_1: "py_index (x0 # x1 # xs) 1 = Inr x1"
  by (simp add: py_index_def)

lemma py_index_2: "py_index (x0 # x1 # x2 # xs) 2 = Inr x2"
  by (simp add: py_index_def)

lemma py_index_3: "py_index (x0 # x1 # x2 # x3 # xs) 3 = Inr x3"
  by (simp add: py_index_def eval_nat_numeral)

lemma set_byte_1:
  "n < 256 \<Longrightarrow> set_byte (x0 # x1 # xs) 1 (int n) = Inr (x0 # of_nat n # xs)"
  by (simp add: set_byte_def)

lemma set_byte_2:
  "n < 256 \<Longrightarrow> set_byte (x0 # x1 # x2 # xs) 2 (int n) = Inr (x0 # x1 # of_nat n # xs)"
  by (simp add: set_byte_def eval_nat_numeral)

lemma set_byte_3:
  "n < 256 \<Longrightarrow>
   set_byte (x0 # x1 # x2 # x3 # xs) 3 (int n) = Inr (x0 # x1 # x2 # of_nat n # xs)"
  by (simp add: set_byte_def eval_nat_numeral)

lemma set_byte_4:
  "n < 256 \<Longrightarrow>
   set_byte (x0 # x1 # x2 # x3 # x4 # xs) 4 (int n) = Inr (x0 # x1 # x2 # x3 # of_nat n # xs)"
  by (simp add: set_byte_def eval_nat_numeral)

lemma to_bytes_little_2:
  "uint16 x \<Longrightarrow> to_bytes_little x 2 = Inr [word_of_int x, word_of_int (x div 256)]"
  by (simp add: to_bytes_little_def uint16_def eval_nat_numeral)

lemma from_bytes_little_pair:
  "from_bytes_little [word_of_int x, word_of_int (x div 256)] = x mod 65536"
proof -
  have lo: "uint (word_of_int x :: byte) = x mod 256"
    by (simp add: uint_word_of_int)
  have hi: "uint (word_of_int (x div 256) :: byte) = (x div 256) mod 256"
    by (simp add: uint_word_of_int)
  show ?thesis
    using zmod_zmult2_eq [of 256 x 256] by (simp add: lo hi)
qed

lemma uint16_roundtrip:
  assumes "uint16 x"
  shows "from_bytes_little [word_of_int x, word_of_int (x div 256)] = x"
proof -
  from assms have "x mod 65536 = x" by (simp add: uint16_def)
  then show ?thesis by (simp only: from_bytes_little_pair)
qed

lemma StreamOn_encode_dotted_quad:
  assumes "a < 256" "b < 256" "c < 256" "d < 256" "uint16 port" "uint16 period"
  shows "StreamOn_encode (dotted_quad a b c d) port period =
     Inr [18, of_nat a, of_nat b, of_nat c, of_nat d,
          word_of_int port, word_of_int (port div 256),
          word_of_int period, word_of_int (period div 256)]"
  by (simp only: StreamOn_encode_def Let_def py_split_dotted_quad bytearray_zeros_9
      list_update_code py_index_0 py_index_1 py_index_2 py_index_3 bind_py_Inr
      py_int_str_nat set_byte_1 [OF assms(1)] set_byte_2 [OF assms(2)]
      set_byte_3 [OF assms(3)] set_byte_4 [OF assms(4)]
      to_bytes_little_2 [OF assms(5)] to_bytes_little_2 [OF assms(6)] set_slice_pairs)

lemma dotted_quad_example: "dotted_quad 192 168 1 10 = ''192.168.1.10''"
  by code_simp


lemma StreamOn_encode_example:
  "StreamOn_encode ''192.168.1.10'' 4300 50 =
     Inr [18, 192, 168, 1, 10, 0xCC, 0x10, 0x32, 0x00]"
  by code_simp

subsection \<open>Claim C2: the layout of \<open>StreamOn\<close>\<close>

text \<open>
  The example of the claim is wrong in byte 5: 4300 is \<open>0x10CC\<close>, so the low byte of
  the port is \<open>0xCC\<close>, not \<open>0x2C\<close> (\<open>0x102C\<close> is 4140).
\<close>

theorem StreamOn_encode_example_counterexample:
  "StreamOn_encode ''192.168.1.10'' 4300 50 \<noteq>
     Inr [18, 192, 168, 1, 10, 0x2C, 0x10, 0x32, 0x00]"
  using StreamOn_encode_example by simp

text \<open>
  Claim C2, amended: \<open>StreamOn("192.168.1.10", 4300, 50).encode()\<close> equals
  \<open>[18, 192, 168, 1, 10, 0xCC, 0x10, 0x32, 0x00]\<close>; in general, for a host written as
  the dotted quad of four octets below 256 and for \<open>port\<close> and \<open>period\<close> in
  \<open>0 .. 65535\<close>, \<open>encode()\<close> returns 9 bytes: the id 18, the four octets in order, and
  two byte pairs that read back, little-endian and unsigned, as \<open>port\<close> and \<open>period\<close>.
\<close>

theorem StreamOn_encode_layout:
  "StreamOn_encode ''192.168.1.10'' 4300 50 =
     Inr [18, 192, 168, 1, 10, 0xCC, 0x10, 0x32, 0x00] \<and>
   (a < 256 \<and> b < 256 \<and> c < 256 \<and> d < 256 \<and> uint16 port \<and> uint16 period \<longrightarrow>
      (\<exists>p0 p1 q0 q1.
         StreamOn_encode (dotted_quad a b c d) port period =
           Inr [18, of_nat a, of_nat b, of_nat c, of_nat d, p0, p1, q0, q1] \<and>
         from_bytes_little [p0, p1] = port \<and> from_bytes_little [q0, q1] = period))"
proof (intro conjI impI)
  show "StreamOn_encode ''192.168.1.10'' 4300 50 =
      Inr [18, 192, 168, 1, 10, 0xCC, 0x10, 0x32, 0x00]"
    by (rule StreamOn_encode_example)
next
  assume r: "a < 256 \<and> b < 256 \<and> c < 256 \<and> d < 256 \<and> uint16 port \<and> uint16 period"
  then have h: "a < 256" "b < 256" "c < 256" "d < 256" "uint16 port" "uint16 period"
    by blast+
  show "\<exists>p0 p1 q0 q1.
         StreamOn_encode (dotted_quad a b c d) port period =
           Inr [18, of_nat a, of_nat b, of_nat c, of_nat d, p0, p1, q0, q1] \<and>
         from_bytes_little [p0, p1] = port \<and> from_bytes_little [q0, q1] = period"
    using StreamOn_encode_dotted_quad [OF h] uint16_roundtrip [OF h(5)]
      uint16_roundtrip [OF h(6)]
    by blast
qed

theorem StreamOn_encode_layout_witness:
  "((192::nat) < 256 \<and> (168::nat) < 256 \<and> (1::nat) < 256 \<and> (10::nat) < 256 \<and>
      uint16 4300 \<and> uint16 50) \<and>
   (\<exists>p0 p1 q0 q1.
      StreamOn_encode (dotted_quad 192 168 1 10) 4300 50 =
        Inr [18, of_nat 192, of_nat 168, of_nat 1, of_nat 10, p0, p1, q0, q1] \<and>
      from_bytes_little [p0, p1] = 4300 \<and> from_bytes_little [q0, q1] = 50)"
proof -
  have h: "(192::nat) < 256 \<and> (168::nat) < 256 \<and> (1::nat) < 256 \<and> (10::nat) < 256 \<and>
      uint16 4300 \<and> uint16 50"
    by (simp add: uint16_def)
  show ?thesis
    by (rule conjI [OF h
          StreamOn_encode_layout [of 192 168 1 10 4300 50, THEN conjunct2, THEN mp, OF h]])
qed


subsection \<open>Helper facts: the link, the encoders' first byte, the actuator\<close>

lemma TCPLink_send_put_calls:
  "put_calls (snd (TCPLink_send link command timeout)) = put_calls link @ [command]"
  by (simp add: TCPLink_send_def Let_def split: sum.splits)

lemma TCPLink_send_open:
  assumes "\<not> closed (buffer_send link)"
  shows "fst (TCPLink_send link command timeout) = Inr ()"
  using assms by (simp add: TCPLink_send_def put_nowait_def Let_def)

lemma TCPLink_send_full:
  assumes "\<not> closed (buffer_send link)"
    "maxsize (buffer_send link) \<le> length (items (buffer_send link))"
  shows "buffer_send (snd (TCPLink_send link command timeout)) = buffer_send link"
  using assms by (simp add: TCPLink_send_def put_nowait_def Let_def)

lemma TCPLink_send_room:
  assumes "\<not> closed (buffer_send link)"
    "length (items (buffer_send link)) < maxsize (buffer_send link)"
  shows "buffer_send (snd (TCPLink_send link command timeout)) =
     (buffer_send link)\<lparr>items := items (buffer_send link) @ [command]\<rparr>"
  using assms by (simp add: TCPLink_send_def put_nowait_def Let_def)

lemma TCPLink_send_closed:
  assumes "closed (buffer_send link)"
  shows "fst (TCPLink_send link command timeout) = Inl ValueError"
  using assms by (simp add: TCPLink_send_def put_nowait_def Let_def)

lemma set_slice_hd:
  "0 < a \<Longrightarrow> data \<noteq> [] \<Longrightarrow>
   set_slice data a b bs \<noteq> [] \<and> hd (set_slice data a b bs) = hd data"
  by (cases data; cases a) (simp_all add: set_slice_def)

lemma set_byte_hd:
  "set_byte data i v = Inr d \<Longrightarrow> 0 < i \<Longrightarrow> d \<noteq> [] \<and> hd d = hd data"
  by (cases data; cases i) (auto simp: set_byte_def split: if_splits)

lemma bind_py_eq_Inr:
  "bind_py r f = Inr y \<longleftrightarrow> (\<exists>v. r = Inr v \<and> f v = Inr y)"
  by (cases r) (simp_all add: bind_py_def)

lemma Move_encode_head:
  "Move_encode vx vy rot = Inr bs \<Longrightarrow> bs \<noteq> [] \<and> hd bs = 2"
  by (auto simp: Move_encode_def bind_py_eq_Inr bytearray_zeros_7 set_slice_hd)

lemma MoveWheels_encode_head:
  "MoveWheels_encode ne nw sw se = Inr bs \<Longrightarrow> bs \<noteq> [] \<and> hd bs = 3"
  by (auto simp: MoveWheels_encode_def bind_py_eq_Inr bytearray_zeros_9 set_slice_hd)

lemma PollSensor_encode_head:
  "PollSensor_encode sensor_id = Inr bs \<Longrightarrow> bs \<noteq> [] \<and> hd bs = 17"
  by (auto simp: PollSensor_encode_def bind_py_eq_Inr bytearray_zeros_2 set_slice_hd)

lemma StreamOn_encode_head:
  assumes "StreamOn_encode host port period = Inr bs"
  shows "bs \<noteq> [] \<and> hd bs = 18"
proof -
  from assms obtain v0 v1 v2 v3 d1 d2 d3 d4 bp bq where
    s1: "set_byte [18, 0, 0, 0, 0, 0, 0, 0, 0] 1 v0 = Inr d1" and
    s2: "set_byte d1 2 v1 = Inr d2" and
    s3: "set_byte d2 3 v2 = Inr d3" and
    s4: "set_byte d3 4 v3 = Inr d4" and
    bs: "bs = set_slice (set_slice d4 5 7 bp) 7 9 bq"
    by (auto simp: StreamOn_encode_def Let_def bind_py_eq_Inr bytearray_zeros_9)
  from set_byte_hd [OF s1] have "d1 \<noteq> [] \<and> hd d1 = 18" by simp
  with set_byte_hd [OF s2] have "d2 \<noteq> [] \<and> hd d2 = 18" by simp
  with set_byte_hd [OF s3] have "d3 \<noteq> [] \<and> hd d3 = 18" by simp
  with set_byte_hd [OF s4] have "d4 \<noteq> [] \<and> hd d4 = 18" by simp
  then show ?thesis by (simp add: bs set_slice_hd)
qed

lemma encode_head: "encode c = Inr bs \<Longrightarrow> bs \<noteq> [] \<and> hd bs = cmd_id c"
proof (cases c)
  case PowerOff
  moreover assume "encode c = Inr bs"
  ultimately show ?thesis by (auto simp: PowerOff_encode_def bytearray_zeros_def)
next
  case (Move vx vy rot)
  moreover assume "encode c = Inr bs"
  ultimately show ?thesis using Move_encode_head by simp
next
  case (MoveWheels ne nw sw se)
  moreover assume "encode c = Inr bs"
  ultimately show ?thesis using MoveWheels_encode_head by simp
next
  case PollAll
  moreover assume "encode c = Inr bs"
  ultimately show ?thesis by (auto simp: PollAll_encode_def bytearray_zeros_def)
next
  case (PollSensor sensor_id)
  moreover assume "encode c = Inr bs"
  ultimately show ?thesis using PollSensor_encode_head by simp
next
  case (StreamOn host port period)
  moreover assume "encode c = Inr bs"
  ultimately show ?thesis using StreamOn_encode_head by simp
next
  case StreamOff
  moreover assume "encode c = Inr bs"
  ultimately show ?thesis by (auto simp: StreamOff_encode_def bytearray_zeros_def)
qed

lemma cmd_id_values: "cmd_id c \<in> {1, 2, 3, 16, 17, 18, 19}"
  by (cases c) simp_all

lemma cmd_id_nonzero: "cmd_id c \<noteq> 0"
  by (cases c) simp_all

lemma DurinActuator_call_raises:
  "enc action = Inl e \<Longrightarrow> DurinActuator_call enc link action timeout = (Inl e, link)"
  by (simp add: DurinActuator_call_def)

lemma DurinActuator_call_empty:
  "enc action = Inr [] \<Longrightarrow> DurinActuator_call enc link action timeout = (Inl IndexError, link)"
  by (simp add: DurinActuator_call_def)

lemma DurinActuator_call_zero:
  "enc action = Inr (0 # rest) \<Longrightarrow>
   DurinActuator_call enc link action timeout = (Inr (Some []), link)"
  by (simp add: DurinActuator_call_def)

lemma DurinActuator_call_sends:
  assumes "enc action = Inr (b0 # rest)" "b0 \<noteq> 0"
  shows "fst (DurinActuator_call enc link action timeout) \<noteq> Inr (Some []) \<and>
     snd (DurinActuator_call enc link action timeout) =
       snd (TCPLink_send link (b0 # rest) timeout)"
  using assms
  by (simp add: DurinActuator_call_def split: prod.splits sum.splits)


subsection \<open>Claim C6: \<open>TCPLink.send\<close> drops silently on a full queue\<close>

text \<open>
  The claim as written ("never raises, for every queue state") fails on a queue that
  was closed, as \<open>TCPLink.stop\<close> does: \<open>put\<close> raises \<open>ValueError\<close>, which \<open>send\<close> does not
  catch. So \<open>send\<close> after \<open>stop\<close> raises.
\<close>

theorem TCPLink_send_closed_counterexample:
  "closed (buffer_send (TCPLink_stop TCPLink_init)) \<and>
   fst (TCPLink_send (TCPLink_stop TCPLink_init) [16] (1 / 20)) = Inl ValueError"
  by (simp add: TCPLink_send_def put_nowait_def Let_def TCPLink_stop_def TCPLink_init_def)

text \<open>
  Claim C6, amended: on a queue that has not been closed, \<open>send\<close> never raises: it
  returns \<open>None\<close>; when the queue is full the command is dropped (the queue is
  unchanged) and nothing is reported to the caller; when there is room the command is
  appended. The model of \<open>send\<close> is a total function: it makes one non-blocking \<open>put\<close>
  and never waits.
\<close>

theorem TCPLink_send_open_queue:
  "\<not> closed (buffer_send link) \<longrightarrow>
     fst (TCPLink_send link command timeout) = Inr () \<and>
     (maxsize (buffer_send link) \<le> length (items (buffer_send link)) \<longrightarrow>
        buffer_send (snd (TCPLink_send link command timeout)) = buffer_send link) \<and>
     (length (items (buffer_send link)) < maxsize (buffer_send link) \<longrightarrow>
        buffer_send (snd (TCPLink_send link command timeout)) =
          (buffer_send link)\<lparr>items := items (buffer_send link) @ [command]\<rparr>)"
  by (simp add: TCPLink_send_open TCPLink_send_full TCPLink_send_room)

theorem TCPLink_send_open_queue_witness:
  "(\<not> closed (buffer_send (TCPLink_init\<lparr>buffer_send := \<lparr>maxsize = 2, items = [[2], [3]], closed = False\<rparr>\<rparr>)) \<and>
    fst (TCPLink_send (TCPLink_init\<lparr>buffer_send := \<lparr>maxsize = 2, items = [[2], [3]], closed = False\<rparr>\<rparr>)
           [16] (1 / 20)) = Inr () \<and>
    buffer_send (snd (TCPLink_send
           (TCPLink_init\<lparr>buffer_send := \<lparr>maxsize = 2, items = [[2], [3]], closed = False\<rparr>\<rparr>)
           [16] (1 / 20))) = \<lparr>maxsize = 2, items = [[2], [3]], closed = False\<rparr>) \<and>
   (\<not> closed (buffer_send TCPLink_init) \<and>
    fst (TCPLink_send TCPLink_init [16] (1 / 20)) = Inr () \<and>
    buffer_send (snd (TCPLink_send TCPLink_init [16] (1 / 20))) =
      \<lparr>maxsize = 2, items = [[16]], closed = False\<rparr>)"
  using TCPLink_send_open_queue
      [of "TCPLink_init\<lparr>buffer_send := \<lparr>maxsize = 2, items = [[2], [3]], closed = False\<rparr>\<rparr>"
          "[16]" "1 / 20"]
    TCPLink_send_open_queue [of TCPLink_init "[16]" "1 / 20"]
  by (simp add: TCPLink_init_def)

subsection \<open>Claim C3: the zero sentinel of \<open>DurinActuator.__call__\<close>\<close>

text \<open>
  The claim as written fails for \<open>PowerOff\<close>, whose encoding is \<open>[1]\<close>: the call puts
  the command on the queue and returns \<open>None\<close>, not the empty reply. It also fails for
  an empty encoding, where reading byte 0 raises \<open>IndexError\<close>.
\<close>

theorem DurinActuator_call_PowerOff_counterexample:
  "DurinActuator_call encode TCPLink_init PowerOff (1 / 20) =
     (Inr None,
      \<lparr> buffer_send = \<lparr>maxsize = 2, items = [[1]], closed = False\<rparr>,
        put_calls = [[1]] \<rparr>) \<and>
   DurinActuator_call (\<lambda>u. Inr []) TCPLink_init () (1 / 20) =
     (Inl IndexError, TCPLink_init)"
  by (simp add: DurinActuator_call_def TCPLink_send_def put_nowait_def TCPLink_init_def
      PowerOff_encode_def bytearray_zeros_def Let_def)

text \<open>
  Claim C3, amended: for every command whose encoding is non-empty and has byte 0
  equal to 0, \<open>__call__\<close> makes no \<open>put\<close> (the link is returned as it was) and returns
  the empty reply list. \<open>PowerOff\<close> is not such a command: calling the actuator with
  it attempts the send of \<open>[1]\<close> and does not return the empty reply.
\<close>

theorem DurinActuator_call_zero_sentinel:
  "(enc action = Inr bs \<and> bs \<noteq> [] \<and> bs ! 0 = 0 \<longrightarrow>
      DurinActuator_call enc link action timeout = (Inr (Some []), link)) \<and>
   put_calls (snd (DurinActuator_call encode link PowerOff timeout)) =
     put_calls link @ [[1]] \<and>
   fst (DurinActuator_call encode link PowerOff timeout) \<noteq> Inr (Some [])"
proof (intro conjI impI)
  assume "enc action = Inr bs \<and> bs \<noteq> [] \<and> bs ! 0 = 0"
  then obtain rest where "enc action = Inr (0 # rest)"
    by (cases bs) auto
  then show "DurinActuator_call enc link action timeout = (Inr (Some []), link)"
    by (rule DurinActuator_call_zero)
next
  have e: "encode PowerOff = Inr (1 # [])"
    by (simp add: PowerOff_encode_def bytearray_zeros_def)
  have n: "(1::byte) \<noteq> 0" by simp
  from DurinActuator_call_sends [of encode PowerOff 1 "[]" link timeout, OF e n]
  show "put_calls (snd (DurinActuator_call encode link PowerOff timeout)) =
      put_calls link @ [[1]]"
    and "fst (DurinActuator_call encode link PowerOff timeout) \<noteq> Inr (Some [])"
    by (simp_all add: TCPLink_send_put_calls)
qed

theorem DurinActuator_call_zero_sentinel_witness:
  "((\<lambda>u. Inr [0, 7]) () = (Inr [0, 7] :: py_error + byte list) \<and>
      [0, 7 :: byte] \<noteq> [] \<and> [0, 7 :: byte] ! 0 = 0) \<and>
   DurinActuator_call (\<lambda>u. Inr [0, 7]) TCPLink_init () (1 / 20) =
     (Inr (Some []), TCPLink_init)"
proof -
  have h: "(\<lambda>u. Inr [0, 7]) () = (Inr [0, 7] :: py_error + byte list) \<and>
      [0, 7 :: byte] \<noteq> [] \<and> [0, 7 :: byte] ! 0 = 0"
    by simp
  show ?thesis
    by (rule conjI [OF h
          DurinActuator_call_zero_sentinel
            [of "\<lambda>u. Inr [0, 7]" "()" "[0, 7]" TCPLink_init "1 / 20",
             THEN conjunct1, THEN mp, OF h]])
qed

subsection \<open>Claim C10: every command carries a nonzero id in byte 0\<close>

text \<open>
  The claim as written ("every command encodes to a buffer", "always attempts a send")
  fails for a command whose fields do not fit their wire format: \<open>encode\<close> raises, and
  \<open>__call__\<close> propagates the exception before any send.
\<close>

theorem DurinActuator_call_encode_raises_counterexample:
  "encode (Move 40000 0 0) = Inl StructError \<and>
   DurinActuator_call encode TCPLink_init (Move 40000 0 0) (1 / 20) =
     (Inl StructError, TCPLink_init)"
proof -
  have n: "\<not> int16 40000" by (simp add: int16_def)
  have "encode (Move 40000 0 0) = Inl StructError"
    by (simp only: encode.simps Move_encode_def struct_pack_h_not_int16 [OF n] bind_py_Inl)
  then show ?thesis
    by (simp add: DurinActuator_call_raises)
qed

text \<open>
  Claim C10, amended: each of the seven command variants has a fixed id in
  \<open>{1, 2, 3, 16, 17, 18, 19}\<close>, all nonzero, and \<open>__call__\<close> never returns the empty
  reply for any of them; whenever \<open>encode\<close> returns a buffer (it raises when a field
  does not fit its wire format), the buffer is non-empty, its byte 0 is the id of the
  variant, and \<open>__call__\<close> attempts the send of exactly this buffer.
\<close>

theorem encode_id_nonzero_always_sends:
  "cmd_id c \<in> {1, 2, 3, 16, 17, 18, 19} \<and> cmd_id c \<noteq> 0 \<and>
   fst (DurinActuator_call encode link c timeout) \<noteq> Inr (Some []) \<and>
   (encode c = Inr bs \<longrightarrow>
      bs \<noteq> [] \<and> bs ! 0 = cmd_id c \<and>
      put_calls (snd (DurinActuator_call encode link c timeout)) = put_calls link @ [bs])"
proof -
  have sends: "bs \<noteq> [] \<and> bs ! 0 = cmd_id c \<and>
      fst (DurinActuator_call encode link c timeout) \<noteq> Inr (Some []) \<and>
      put_calls (snd (DurinActuator_call encode link c timeout)) = put_calls link @ [bs]"
    if e: "encode c = Inr bs" for bs
  proof -
    from encode_head [OF e] obtain rest where bs: "bs = cmd_id c # rest"
      by (cases bs) auto
    from e have "encode c = Inr (cmd_id c # rest)" by (simp add: bs)
    from DurinActuator_call_sends
        [of encode c "cmd_id c" rest link timeout, OF this cmd_id_nonzero]
    show ?thesis by (simp add: bs TCPLink_send_put_calls)
  qed
  have "fst (DurinActuator_call encode link c timeout) \<noteq> Inr (Some [])"
  proof (cases "encode c")
    case (Inl e)
    then show ?thesis by (simp add: DurinActuator_call_raises)
  next
    case (Inr b)
    then show ?thesis using sends by blast
  qed
  with sends cmd_id_values cmd_id_nonzero show ?thesis by blast
qed

theorem encode_id_nonzero_always_sends_witness:
  "encode (PollSensor 5) = Inr [17, 5] \<and>
   [17, 5 :: byte] ! 0 = cmd_id (PollSensor 5) \<and>
   put_calls (snd (DurinActuator_call encode TCPLink_init (PollSensor 5) (1 / 20))) =
     put_calls TCPLink_init @ [[17, 5]]"
proof -
  have e: "encode (PollSensor 5) = Inr [17, 5]"
    by code_simp
  from encode_id_nonzero_always_sends [of "PollSensor 5" TCPLink_init "1 / 20" "[17, 5]"] e
  show ?thesis by blast
qed


subsection \<open>Helper facts: the DVS control message\<close>

lemma from_bytes_little_bound:
  "0 \<le> from_bytes_little bs \<and> from_bytes_little bs < 256 ^ length bs"
proof (induction bs)
  case Nil
  show ?case by simp
next
  case (Cons b bs)
  have "0 \<le> uint b" "uint b < 256"
    using uint_bounded [of b] by simp_all
  with Cons show ?case by simp
qed

lemma from_bytes_little_ipv4_range:
  "0 \<le> from_bytes_little (py_slice data 1 5) \<and>
   from_bytes_little (py_slice data 1 5) < 2 ^ 32"
proof -
  let ?bs = "py_slice data 1 5"
  have "length ?bs \<le> 4" by (simp add: py_slice_def)
  then have "(256::int) ^ length ?bs \<le> 256 ^ 4"
    by (intro power_increasing) simp_all
  with from_bytes_little_bound [of ?bs] show ?thesis by simp
qed

lemma byte_split:
  fixes u k :: int
  assumes "0 \<le> u" "u < 256"
  shows "(u + 256 * k) mod 256 = u" "(u + 256 * k) div 256 = k"
  using assms by simp_all

lemma uint_byte: "0 \<le> uint (b :: byte) \<and> uint b < 256"
  using uint_bounded [of b] by simp

lemma str_ipv4_le_bytes:
  "str_ipv4 (from_bytes_little [b1, b2, b3, b4]) =
   dotted_quad (unat b4) (unat b3) (unat b2) (unat b1)"
proof -
  define n where "n = from_bytes_little [b1, b2, b3, b4]"
  define k2 where "k2 = uint b3 + 256 * uint b4"
  define k1 where "k1 = uint b2 + 256 * k2"
  have n: "n = uint b1 + 256 * k1"
    by (simp add: n_def k1_def k2_def)
  have m0: "n mod 256 = uint b1" and d0: "n div 256 = k1"
    unfolding n using uint_byte [of b1] by (simp_all only: byte_split)
  have m1: "k1 mod 256 = uint b2" and d1: "k1 div 256 = k2"
    unfolding k1_def using uint_byte [of b2] by (simp_all only: byte_split)
  have m2: "k2 mod 256 = uint b3" and d2: "k2 div 256 = uint b4"
    unfolding k2_def using uint_byte [of b3] by (simp_all only: byte_split)
  have e2: "n div 65536 = k2"
    using zdiv_zmult2_eq [of 256 n 256] by (simp add: d0 d1)
  have e3: "n div 16777216 = uint b4"
    using zdiv_zmult2_eq [of 256 n 65536] by (simp add: e2 d2)
  have m3: "uint b4 mod 256 = uint b4"
    using uint_byte [of b4] by simp
  have "str_ipv4 n = dotted_quad (unat b4) (unat b3) (unat b2) (unat b1)"
    unfolding str_ipv4_def e3 e2 d0 m0 m1 m2 m3
    by (simp only: nat_uint_eq)
  then show ?thesis by (simp only: n_def)
qed

lemma parse_command_start:
  assumes "m \<noteq> []" "m ! 0 = 0"
  shows "parse_command str m s =
     start_stream str (str_ipv4 (from_bytes_little (py_slice m 1 5)))
       (from_bytes_little (py_slice m 5 7)) s"
  using assms by (simp add: parse_command_def Let_def)

lemma parse_command_stop:
  assumes "m \<noteq> []" "m ! 0 \<noteq> 0"
  shows "parse_command str m s = stop_stream str s"
  using assms by (simp add: parse_command_def)

lemma py_slice_1_5: "py_slice (b0 # b1 # b2 # b3 # b4 # rest) 1 5 = [b1, b2, b3, b4]"
  by (simp add: py_slice_def)

lemma py_slice_5_7:
  "py_slice (b0 # b1 # b2 # b3 # b4 # p0 # p1 # rest) 5 7 = [p0, p1]"
  by (simp add: py_slice_def)


subsection \<open>Claim C4: the DVS server dispatches on byte 0\<close>

text \<open>
  Claim C4: for every non-empty control message \<open>m\<close> handled by the server, if
  \<open>m[0] == 0\<close> exactly one call \<open>start_stream(host, port)\<close> is made and no
  \<open>stop_stream\<close>, with \<open>host\<close> the IPv4 address read little-endian from \<open>m[1:5]\<close> and
  \<open>port\<close> read little-endian from \<open>m[5:7]\<close>; otherwise exactly one call \<open>stop_stream()\<close>
  is made and no \<open>start_stream\<close>. For a message of at least 7 bytes the host is
  \<open>m[4].m[3].m[2].m[1]\<close> and the port \<open>m[5] + 256 * m[6]\<close>, whatever follows. The calls
  are observed on a streamer that records them.
\<close>

theorem parse_command_dispatch:
  "(m \<noteq> [] \<and> m ! 0 = 0 \<longrightarrow>
      parse_command recorder m calls =
        Inr (calls @ [Start_stream (str_ipv4 (from_bytes_little (py_slice m 1 5)))
                        (from_bytes_little (py_slice m 5 7))])) \<and>
   (m \<noteq> [] \<and> m ! 0 \<noteq> 0 \<longrightarrow>
      parse_command recorder m calls = Inr (calls @ [Stop_stream])) \<and>
   parse_command recorder (0 # b1 # b2 # b3 # b4 # p0 # p1 # trailing) calls =
     Inr (calls @ [Start_stream (dotted_quad (unat b4) (unat b3) (unat b2) (unat b1))
                     (uint p0 + 256 * uint p1)])"
proof (intro conjI impI)
  assume "m \<noteq> [] \<and> m ! 0 = 0"
  then show "parse_command recorder m calls =
        Inr (calls @ [Start_stream (str_ipv4 (from_bytes_little (py_slice m 1 5)))
                        (from_bytes_little (py_slice m 5 7))])"
    by (simp add: parse_command_start recorder_def)
next
  assume "m \<noteq> [] \<and> m ! 0 \<noteq> 0"
  then show "parse_command recorder m calls = Inr (calls @ [Stop_stream])"
    by (simp add: parse_command_stop recorder_def)
next
  let ?m = "0 # b1 # b2 # b3 # b4 # p0 # p1 # trailing"
  have "parse_command recorder ?m calls =
      start_stream recorder (str_ipv4 (from_bytes_little (py_slice ?m 1 5)))
        (from_bytes_little (py_slice ?m 5 7)) calls"
    by (rule parse_command_start) simp_all
  then show "parse_command recorder ?m calls =
     Inr (calls @ [Start_stream (dotted_quad (unat b4) (unat b3) (unat b2) (unat b1))
                     (uint p0 + 256 * uint p1)])"
    by (simp only: py_slice_1_5 py_slice_5_7 str_ipv4_le_bytes)
       (simp add: recorder_def)
qed

theorem parse_command_dispatch_witness:
  "([0, 10, 1, 168, 192, 0xCD, 0x10, 9, 9 :: byte] \<noteq> [] \<and>
      [0, 10, 1, 168, 192, 0xCD, 0x10, 9, 9 :: byte] ! 0 = 0) \<and>
   parse_command recorder [0, 10, 1, 168, 192, 0xCD, 0x10, 9, 9] [] =
     Inr [Start_stream ''192.168.1.10'' 4301] \<and>
   ([1 :: byte] \<noteq> [] \<and> [1 :: byte] ! 0 \<noteq> 0) \<and>
   parse_command recorder [1] [Start_stream ''192.168.1.10'' 4301] =
     Inr [Start_stream ''192.168.1.10'' 4301, Stop_stream]"
proof -
  have h1: "[0, 10, 1, 168, 192, 0xCD, 0x10, 9, 9 :: byte] \<noteq> [] \<and>
      [0, 10, 1, 168, 192, 0xCD, 0x10, 9, 9 :: byte] ! 0 = 0"
    by simp
  have h2: "[1 :: byte] \<noteq> [] \<and> [1 :: byte] ! 0 \<noteq> 0"
    by simp
  have v: "Start_stream (str_ipv4 (from_bytes_little
             (py_slice [0, 10, 1, 168, 192, 0xCD, 0x10, 9, 9 :: byte] 1 5)))
           (from_bytes_little (py_slice [0, 10, 1, 168, 192, 0xCD, 0x10, 9, 9 :: byte] 5 7)) =
        Start_stream ''192.168.1.10'' 4301"
    by code_simp
  note a = parse_command_dispatch
      [where m = "[0, 10, 1, 168, 192, 0xCD, 0x10, 9, 9]" and calls = "[]",
       THEN conjunct1, THEN mp, OF h1]
  note b = parse_command_dispatch
      [where m = "[1]" and calls = "[Start_stream ''192.168.1.10'' 4301]",
       THEN conjunct2, THEN conjunct1, THEN mp, OF h2]
  from a b h1 h2 show ?thesis
    by (simp only: v append.simps) simp
qed



subsection \<open>Helper facts: the aggregator\<close>

lemma ctypes_set_slice_ok:
  "a \<le> b \<Longrightarrow> b \<le> length arr \<Longrightarrow> length vs = b - a \<Longrightarrow>
   ctypes_set_slice arr a b vs = Inr (take a arr @ vs @ drop b arr)"
  by (simp add: ctypes_set_slice_def Let_def min_def max_def)

lemma ctypes_set_slice_whole:
  "length vs = length arr \<Longrightarrow> ctypes_set_slice arr 0 (length arr) vs = Inr vs"
  by (simp add: ctypes_set_slice_def Let_def)

lemma update_hz_eq:
  "update_hz now s =
     (None, s\<lparr>ringbuffer := (ringbuffer s)[ringbuffer_idx s := now - timestamp_update s],
              ringbuffer_idx := (ringbuffer_idx s + 1) mod length (ringbuffer s),
              timestamp_update := now\<rparr>)"
  by (simp add: update_hz_def RingBuffer_append_def ctypes_set_slice_whole Let_def)

lemma consume_misc_other:
  "sid \<noteq> misc S \<Longrightarrow> consume_misc S sid data s = (None, s)"
  by (simp add: consume_misc_def)

lemma consume_tof_other:
  "\<not> (tof_a S \<le> sid \<and> sid \<le> tof_d S) \<Longrightarrow> consume_tof S sid data s = (None, s)"
  unfolding consume_tof_def by (simp only: if_False)

lemma tof_idx_bound:
  assumes "sensors_wf S" "tof_a S \<le> sid" "sid \<le> tof_d S"
  shows "tof_index S sid \<le> 6"
  using assms by (simp add: sensors_wf_def tof_index_def)

lemma consume_tof_write:
  assumes "sensors_wf S" "tof_a S \<le> sid" "sid \<le> tof_d S"
    "length vs = 128" "length (tof s) = 512"
  shows "consume_tof S sid (NdArray vs) s =
     (None, s\<lparr>tof := take (tof_index S sid * 64) (tof s) @ map c_float vs @
                        drop ((tof_index S sid + 2) * 64) (tof s)\<rparr>)"
proof -
  let ?idx = "tof_index S sid"
  have b: "?idx \<le> 6" using assms(1-3) by (rule tof_idx_bound)
  have "ctypes_set_slice (tof s) (?idx * 64) ((?idx + 2) * 64) (map c_float vs) =
      Inr (take (?idx * 64) (tof s) @ map c_float vs @ drop ((?idx + 2) * 64) (tof s))"
    using b assms(4,5) by (intro ctypes_set_slice_ok) simp_all
  with assms(2,3) show ?thesis
    by (simp add: consume_tof_def Let_def)
qed

lemma consume_unknown:
  assumes "\<not> (tof_a S \<le> sid \<and> sid \<le> tof_d S)" "sid \<noteq> misc S"
  shows "consume S now (sid, data) s =
     (None, s\<lparr>ringbuffer := (ringbuffer s)[ringbuffer_idx s := now - timestamp_update s],
              ringbuffer_idx := (ringbuffer_idx s + 1) mod length (ringbuffer s),
              timestamp_update := now\<rparr>)"
  using assms
  by (simp add: consume_def and_then_def consume_tof_other consume_misc_other update_hz_eq)

lemma consume_tof_item:
  assumes "sensors_wf S" "tof_a S \<le> sid" "sid \<le> tof_d S"
    "length vs = 128" "length (tof s) = 512"
  shows "consume S now (sid, NdArray vs) s =
     (None, s\<lparr>tof := take (tof_index S sid * 64) (tof s) @ map c_float vs @
                        drop ((tof_index S sid + 2) * 64) (tof s),
              ringbuffer := (ringbuffer s)[ringbuffer_idx s := now - timestamp_update s],
              ringbuffer_idx := (ringbuffer_idx s + 1) mod length (ringbuffer s),
              timestamp_update := now\<rparr>)"
proof -
  from assms(1-3) have "sid \<noteq> misc S" by (auto simp: sensors_wf_def)
  then show ?thesis
    by (simp add: consume_def and_then_def consume_tof_write [OF assms] consume_misc_other
        update_hz_eq)
qed

lemma tof_layers_written:
  assumes "idx \<le> 6" "length vs = 128" "length t = 512"
  defines "t' \<equiv> take (idx * 64) t @ vs @ drop ((idx + 2) * 64) t"
  shows "length t' = 512"
    and "tof_layers t' idx (idx + 2) = vs"
    and "tof_layers t' 0 idx = tof_layers t 0 idx"
    and "tof_layers t' (idx + 2) 8 = tof_layers t (idx + 2) 8"
proof -
  have l: "length (take (idx * 64) t) = idx * 64"
    using assms(1,3) by simp
  show "length t' = 512"
    using assms(1-3) by (simp add: t'_def)
  show "tof_layers t' idx (idx + 2) = vs"
    using assms(2) l by (simp add: tof_layers_def py_slice_def t'_def)
  show "tof_layers t' 0 idx = tof_layers t 0 idx"
    using l by (simp add: tof_layers_def py_slice_def t'_def)
  have "drop ((idx + 2) * 64) t' = drop ((idx + 2) * 64) t"
    using assms(2) l by (simp add: t'_def)
  then show "tof_layers t' (idx + 2) 8 = tof_layers t (idx + 2) 8"
    by (simp add: tof_layers_def py_slice_def)
qed



lemma example_SENSORS_wf: "sensors_wf example_SENSORS"
  by (simp add: sensors_wf_def example_SENSORS_def)


lemma consume_unknown_fields:
  assumes "\<not> (tof_a S \<le> sid \<and> sid \<le> tof_d S)" "sid \<noteq> misc S"
  shows "fst (consume S now (sid, data) st) = None"
    and "tof (snd (consume S now (sid, data) st)) = tof st"
    and "charge (snd (consume S now (sid, data) st)) = charge st"
    and "voltage (snd (consume S now (sid, data) st)) = voltage st"
    and "imu (snd (consume S now (sid, data) st)) = imu st"
    and "uwb_value (snd (consume S now (sid, data) st)) = uwb_value st"
    and "ringbuffer (snd (consume S now (sid, data) st)) =
           (ringbuffer st)[ringbuffer_idx st := now - timestamp_update st]"
    and "ringbuffer_idx (snd (consume S now (sid, data) st)) =
           (ringbuffer_idx st + 1) mod length (ringbuffer st)"
    and "timestamp_update (snd (consume S now (sid, data) st)) = now"
  by (simp_all add: consume_unknown [OF assms])


subsection \<open>Claim C5: a time-of-flight item fills its two layers\<close>

lemma tof_index_eq:
  "tof_a S \<le> sid \<Longrightarrow> int (tof_index S sid) = (sid - tof_a S) * 2"
  by (simp add: tof_index_def)

lemma c_float_one: "c_float (Finite 1) = Finite 1"
  by code_simp

lemma c_float_two: "c_float (Finite 2) = Finite 2"
  by code_simp

lemma c_float_tenth: "c_float (Finite (1 / 10)) = Finite (13421773 / 134217728)"
  by code_simp

lemma consume_tof_sensor:
  assumes "sensors_wf S" "length vs = 128" "length (tof st) = 512"
    "sid = tof_a S + int j" "j \<le> 3" "a = 2 * j" "b = a + 2"
  shows "tof_layers (tof (snd (consume S now (sid, NdArray vs) st))) a b = map c_float vs"
proof -
  from assms(1,4,5) have r: "tof_a S \<le> sid" "sid \<le> tof_d S"
    by (simp_all add: sensors_wf_def)
  from assms(4,6) have i: "tof_index S sid = a"
    by (simp add: tof_index_def)
  from assms(5,6) have c: "a \<le> 6" by simp
  have l: "length (map c_float vs) = 128" using assms(2) by simp
  from tof_layers_written(2) [OF c l assms(3)] show ?thesis
    unfolding assms(7) by (simp add: consume_tof_item [OF assms(1) r assms(2,3)] i)
qed

text \<open>
  Claim C5: given a table whose four time-of-flight ids are consecutive and differ from
  \<open>misc\<close>, consuming an item whose id \<open>s\<close> lies in \<open>tof_a .. tof_d\<close> and whose payload has
  \<open>2 * 8 * 8 = 128\<close> cells returns normally and writes the payload, each cell converted to
  the single precision of the depth volume, into the flat \<open>8 * 8 * 8\<close> volume exactly at
  the positions \<open>[idx * 64, (idx + 2) * 64)\<close> with \<open>idx = (s - tof_a) * 2\<close>, that is into
  the layers \<open>idx\<close> and \<open>idx + 1\<close>; a payload of single-precision values is stored as it
  is. All other layers and \<open>charge\<close>, \<open>voltage\<close> and \<open>imu\<close> keep their values. So \<open>tof_a\<close>,
  \<open>tof_b\<close>, \<open>tof_c\<close> and \<open>tof_d\<close> fill the layers \<open>[0:2]\<close>, \<open>[2:4]\<close>, \<open>[4:6]\<close> and \<open>[6:8]\<close>, and
  feeding \<open>tof_a\<close> and then \<open>tof_b\<close> fills \<open>[0:2]\<close> and \<open>[2:4]\<close> and leaves \<open>[4:8]\<close> as it was.
\<close>

theorem consume_tof_layers:
  "(sensors_wf S \<and> tof_a S \<le> sid \<and> sid \<le> tof_d S \<and> length vs = 128 \<and>
    length (tof st) = 512 \<longrightarrow>
      fst (consume S now (sid, NdArray vs) st) = None \<and>
      tof (snd (consume S now (sid, NdArray vs) st)) =
        take (nat ((sid - tof_a S) * 2) * 64) (tof st) @ map c_float vs @
        drop ((nat ((sid - tof_a S) * 2) + 2) * 64) (tof st) \<and>
      length (tof (snd (consume S now (sid, NdArray vs) st))) = 512 \<and>
      tof_layers (tof (snd (consume S now (sid, NdArray vs) st)))
        (nat ((sid - tof_a S) * 2)) (nat ((sid - tof_a S) * 2) + 2) = map c_float vs \<and>
      ((\<forall>v \<in> set vs. c_float v = v) \<longrightarrow>
         tof_layers (tof (snd (consume S now (sid, NdArray vs) st)))
           (nat ((sid - tof_a S) * 2)) (nat ((sid - tof_a S) * 2) + 2) = vs) \<and>
      tof_layers (tof (snd (consume S now (sid, NdArray vs) st)))
        0 (nat ((sid - tof_a S) * 2)) =
        tof_layers (tof st) 0 (nat ((sid - tof_a S) * 2)) \<and>
      tof_layers (tof (snd (consume S now (sid, NdArray vs) st)))
        (nat ((sid - tof_a S) * 2) + 2) 8 =
        tof_layers (tof st) (nat ((sid - tof_a S) * 2) + 2) 8 \<and>
      charge (snd (consume S now (sid, NdArray vs) st)) = charge st \<and>
      voltage (snd (consume S now (sid, NdArray vs) st)) = voltage st \<and>
      imu (snd (consume S now (sid, NdArray vs) st)) = imu st) \<and>
   (sensors_wf S \<and> length vs = 128 \<and> length (tof st) = 512 \<longrightarrow>
      tof_layers (tof (snd (consume S now (tof_a S, NdArray vs) st))) 0 2 = map c_float vs \<and>
      tof_layers (tof (snd (consume S now (tof_b S, NdArray vs) st))) 2 4 = map c_float vs \<and>
      tof_layers (tof (snd (consume S now (tof_c S, NdArray vs) st))) 4 6 = map c_float vs \<and>
      tof_layers (tof (snd (consume S now (tof_d S, NdArray vs) st))) 6 8 = map c_float vs) \<and>
   (sensors_wf S \<and> length va = 128 \<and> length vb = 128 \<and> length (tof st) = 512 \<longrightarrow>
      tof_layers (tof (snd (consume S t2 (tof_b S, NdArray vb)
          (snd (consume S t1 (tof_a S, NdArray va) st))))) 0 2 = map c_float va \<and>
      tof_layers (tof (snd (consume S t2 (tof_b S, NdArray vb)
          (snd (consume S t1 (tof_a S, NdArray va) st))))) 2 4 = map c_float vb \<and>
      tof_layers (tof (snd (consume S t2 (tof_b S, NdArray vb)
          (snd (consume S t1 (tof_a S, NdArray va) st))))) 4 8 = tof_layers (tof st) 4 8)"
proof (intro conjI impI)
  assume h: "sensors_wf S \<and> tof_a S \<le> sid \<and> sid \<le> tof_d S \<and> length vs = 128 \<and>
    length (tof st) = 512"
  then have a: "sensors_wf S" "tof_a S \<le> sid" "sid \<le> tof_d S" "length vs = 128"
    "length (tof st) = 512"
    by blast+
  have i: "nat ((sid - tof_a S) * 2) = tof_index S sid"
    by (simp add: tof_index_def)
  have l: "length (map c_float vs) = 128" using a(4) by simp
  note c = consume_tof_item [OF a, of now]
  note b = tof_idx_bound [OF a(1-3)]
  note w = tof_layers_written [OF b l a(5)]
  show "fst (consume S now (sid, NdArray vs) st) = None"
    by (simp add: c)
  show "tof (snd (consume S now (sid, NdArray vs) st)) =
        take (nat ((sid - tof_a S) * 2) * 64) (tof st) @ map c_float vs @
        drop ((nat ((sid - tof_a S) * 2) + 2) * 64) (tof st)"
    unfolding i by (simp add: c)
  show "length (tof (snd (consume S now (sid, NdArray vs) st))) = 512"
    using w(1) by (simp add: c)
  show m: "tof_layers (tof (snd (consume S now (sid, NdArray vs) st)))
        (nat ((sid - tof_a S) * 2)) (nat ((sid - tof_a S) * 2) + 2) = map c_float vs"
    unfolding i using w(2) by (simp add: c)
  show "tof_layers (tof (snd (consume S now (sid, NdArray vs) st)))
           (nat ((sid - tof_a S) * 2)) (nat ((sid - tof_a S) * 2) + 2) = vs"
    if "\<forall>v \<in> set vs. c_float v = v"
  proof -
    from that have "map c_float vs = vs" by (simp add: map_idI)
    with m show ?thesis by simp
  qed
  show "tof_layers (tof (snd (consume S now (sid, NdArray vs) st)))
        0 (nat ((sid - tof_a S) * 2)) =
        tof_layers (tof st) 0 (nat ((sid - tof_a S) * 2))"
    unfolding i using w(3) by (simp add: c)
  show "tof_layers (tof (snd (consume S now (sid, NdArray vs) st)))
        (nat ((sid - tof_a S) * 2) + 2) 8 =
        tof_layers (tof st) (nat ((sid - tof_a S) * 2) + 2) 8"
    unfolding i using w(4) by (simp add: c)
  show "charge (snd (consume S now (sid, NdArray vs) st)) = charge st"
    "voltage (snd (consume S now (sid, NdArray vs) st)) = voltage st"
    "imu (snd (consume S now (sid, NdArray vs) st)) = imu st"
    by (simp_all add: c)
next
  assume h: "sensors_wf S \<and> length vs = 128 \<and> length (tof st) = 512"
  then have wf: "sensors_wf S" and lv: "length vs = 128" and lt: "length (tof st) = 512"
    by blast+
  from wf have ids: "tof_a S = tof_a S + int 0" "tof_b S = tof_a S + int 1"
    "tof_c S = tof_a S + int 2" "tof_d S = tof_a S + int 3"
    by (simp_all add: sensors_wf_def)
  show "tof_layers (tof (snd (consume S now (tof_a S, NdArray vs) st))) 0 2 = map c_float vs"
    by (rule consume_tof_sensor [OF wf lv lt ids(1)]) simp_all
  show "tof_layers (tof (snd (consume S now (tof_b S, NdArray vs) st))) 2 4 = map c_float vs"
    by (rule consume_tof_sensor [OF wf lv lt ids(2)]) simp_all
  show "tof_layers (tof (snd (consume S now (tof_c S, NdArray vs) st))) 4 6 = map c_float vs"
    by (rule consume_tof_sensor [OF wf lv lt ids(3)]) simp_all
  show "tof_layers (tof (snd (consume S now (tof_d S, NdArray vs) st))) 6 8 = map c_float vs"
    by (rule consume_tof_sensor [OF wf lv lt ids(4)]) simp_all
next
  assume h: "sensors_wf S \<and> length va = 128 \<and> length vb = 128 \<and> length (tof st) = 512"
  then have wf: "sensors_wf S" and la: "length va = 128" and lb: "length vb = 128"
    and lt: "length (tof st) = 512"
    by blast+
  from wf have ia: "tof_index S (tof_a S) = 0" and ib: "tof_index S (tof_b S) = 2"
    and ra: "tof_a S \<le> tof_a S" "tof_a S \<le> tof_d S"
    and rb: "tof_a S \<le> tof_b S" "tof_b S \<le> tof_d S"
    by (simp_all add: sensors_wf_def tof_index_def)
  define s1 where "s1 = snd (consume S t1 (tof_a S, NdArray va) st)"
  define s2 where "s2 = snd (consume S t2 (tof_b S, NdArray vb) s1)"
  have t1: "tof s1 = map c_float va @ drop 128 (tof st)"
    unfolding s1_def by (simp add: consume_tof_item [OF wf ra la lt] ia)
  then have l1: "length (tof s1) = 512"
    using la lt by simp
  have t2: "tof s2 = take 128 (tof s1) @ map c_float vb @ drop 256 (tof s1)"
    unfolding s2_def by (simp add: consume_tof_item [OF wf rb lb l1] ib)
  have t2': "tof s2 = map c_float va @ map c_float vb @ drop 256 (tof st)"
    using la by (simp add: t2 t1)
  have "tof_layers (tof s2) 0 2 = map c_float va" "tof_layers (tof s2) 2 4 = map c_float vb"
    "tof_layers (tof s2) 4 8 = tof_layers (tof st) 4 8"
    using la lb lt by (simp_all add: t2' tof_layers_def py_slice_def)
  then show "tof_layers (tof (snd (consume S t2 (tof_b S, NdArray vb)
          (snd (consume S t1 (tof_a S, NdArray va) st))))) 0 2 = map c_float va"
    "tof_layers (tof (snd (consume S t2 (tof_b S, NdArray vb)
          (snd (consume S t1 (tof_a S, NdArray va) st))))) 2 4 = map c_float vb"
    "tof_layers (tof (snd (consume S t2 (tof_b S, NdArray vb)
          (snd (consume S t1 (tof_a S, NdArray va) st))))) 4 8 = tof_layers (tof st) 4 8"
    by (simp_all add: s1_def s2_def)
qed

theorem consume_tof_layers_witness:
  "(sensors_wf example_SENSORS \<and> tof_a example_SENSORS \<le> 130 \<and>
      130 \<le> tof_d example_SENSORS \<and> length (replicate 128 (Finite 1)) = 128 \<and>
      length (tof (initial_state 0)) = 512) \<and>
   c_float (Finite 1) = Finite 1 \<and>
   nat ((130 - tof_a example_SENSORS) * 2) = 4 \<and>
   tof_layers (tof (snd (consume example_SENSORS 5 (130, NdArray (replicate 128 (Finite 1)))
       (initial_state 0)))) 4 6 = replicate 128 (Finite 1) \<and>
   tof_layers (tof (snd (consume example_SENSORS 5 (130, NdArray (replicate 128 (Finite 1)))
       (initial_state 0)))) 0 4 = tof_layers (tof (initial_state 0)) 0 4 \<and>
   (sensors_wf example_SENSORS \<and> length (replicate 128 (Finite (1 / 10))) = 128 \<and>
      length (tof (initial_state 0)) = 512) \<and>
   tof_layers (tof (snd (consume example_SENSORS 5
       (tof_d example_SENSORS, NdArray (replicate 128 (Finite (1 / 10))))
       (initial_state 0)))) 6 8 = replicate 128 (Finite (13421773 / 134217728)) \<and>
   (sensors_wf example_SENSORS \<and> length (replicate 128 (Finite 1)) = 128 \<and>
      length (replicate 128 (Finite 2)) = 128 \<and> length (tof (initial_state 0)) = 512) \<and>
   tof_layers (tof (snd (consume example_SENSORS 6
       (tof_b example_SENSORS, NdArray (replicate 128 (Finite 2)))
       (snd (consume example_SENSORS 5
          (tof_a example_SENSORS, NdArray (replicate 128 (Finite 1)))
          (initial_state 0)))))) 2 4 = replicate 128 (Finite 2)"
proof -
  have h1: "sensors_wf example_SENSORS \<and> tof_a example_SENSORS \<le> 130 \<and>
      130 \<le> tof_d example_SENSORS \<and> length (replicate 128 (Finite 1)) = 128 \<and>
      length (tof (initial_state 0)) = 512"
    by (simp add: example_SENSORS_wf) (simp add: example_SENSORS_def initial_state_def)
  have r: "\<forall>v \<in> set (replicate 128 (Finite 1)). c_float v = v"
    by (simp add: c_float_one)
  have i: "nat ((130 - tof_a example_SENSORS) * 2) = 4"
    by (simp add: example_SENSORS_def)
  have n: "(4::nat) + 2 = 6"
    by simp
  have h2: "sensors_wf example_SENSORS \<and> length (replicate 128 (Finite (1 / 10))) = 128 \<and>
      length (tof (initial_state 0)) = 512"
    by (simp add: example_SENSORS_wf) (simp add: initial_state_def)
  have h3: "sensors_wf example_SENSORS \<and> length (replicate 128 (Finite 1)) = 128 \<and>
      length (replicate 128 (Finite 2)) = 128 \<and> length (tof (initial_state 0)) = 512"
    by (simp add: example_SENSORS_wf) (simp add: initial_state_def)
  note a = consume_tof_layers
    [where S = example_SENSORS and sid = 130 and vs = "replicate 128 (Finite 1)"
       and st = "initial_state 0" and now = 5,
     THEN conjunct1, THEN mp, OF h1, unfolded i n]
  have a1: "tof_layers (tof (snd (consume example_SENSORS 5
       (130, NdArray (replicate 128 (Finite 1))) (initial_state 0)))) 4 6 =
       replicate 128 (Finite 1)"
    using a r by blast
  have a2: "tof_layers (tof (snd (consume example_SENSORS 5
       (130, NdArray (replicate 128 (Finite 1))) (initial_state 0)))) 0 4 =
       tof_layers (tof (initial_state 0)) 0 4"
    using a by blast
  note b = consume_tof_layers
    [where S = example_SENSORS and vs = "replicate 128 (Finite (1 / 10))"
       and st = "initial_state 0" and now = 5,
     THEN conjunct2, THEN conjunct1, THEN mp, OF h2]
  have b1: "tof_layers (tof (snd (consume example_SENSORS 5
       (tof_d example_SENSORS, NdArray (replicate 128 (Finite (1 / 10))))
       (initial_state 0)))) 6 8 = replicate 128 (Finite (13421773 / 134217728))"
    using b by (simp add: c_float_tenth)
  note c = consume_tof_layers
    [where S = example_SENSORS and va = "replicate 128 (Finite 1)"
       and vb = "replicate 128 (Finite 2)" and st = "initial_state 0"
       and ?t1.0 = 5 and ?t2.0 = 6,
     THEN conjunct2, THEN conjunct2, THEN mp, OF h3]
  have c1: "tof_layers (tof (snd (consume example_SENSORS 6
       (tof_b example_SENSORS, NdArray (replicate 128 (Finite 2)))
       (snd (consume example_SENSORS 5
          (tof_a example_SENSORS, NdArray (replicate 128 (Finite 1)))
          (initial_state 0)))))) 2 4 = replicate 128 (Finite 2)"
    using c by (simp add: c_float_two)
  from h1 c_float_one i a1 a2 h2 b1 h3 c1 show ?thesis by blast
qed

subsection \<open>Claim C7: an item with an unknown sensor id\<close>

text \<open>
  The claim as written fails for the frequency estimator: its update is outside both
  conditionals of \<open>consume\<close>, so an item with an unknown id still moves the timestamp,
  the ring-buffer index and the ring buffer.
\<close>

theorem consume_unknown_sensor_counterexample:
  "\<not> (tof_a example_SENSORS \<le> 200 \<and> 200 \<le> tof_d example_SENSORS) \<and>
   200 \<noteq> misc example_SENSORS \<and>
   timestamp_update (snd (consume example_SENSORS 5 (200, NdArray []) (initial_state 3))) = 5 \<and>
   timestamp_update (initial_state 3) = 3 \<and>
   ringbuffer_idx (snd (consume example_SENSORS 5 (200, NdArray []) (initial_state 3))) = 1 \<and>
   ringbuffer_idx (initial_state 3) = 0 \<and>
   ringbuffer (snd (consume example_SENSORS 5 (200, NdArray []) (initial_state 3))) ! 0 = 2 \<and>
   ringbuffer (initial_state 3) ! 0 = 0"
proof -
  have a: "\<not> (tof_a example_SENSORS \<le> 200 \<and> 200 \<le> tof_d example_SENSORS)"
    and b: "200 \<noteq> misc example_SENSORS"
    by (simp_all add: example_SENSORS_def)
  show ?thesis
    by (simp add: consume_unknown_fields [OF a b] a b) (simp add: initial_state_def)
qed


text \<open>
  Claim C7, amended: consuming an item whose sensor id is neither in \<open>tof_a .. tof_d\<close>
  nor \<open>misc\<close> returns normally and leaves the depth volume, \<open>charge\<close>, \<open>voltage\<close> and
  \<open>imu\<close> at their previous values; the frequency estimator is updated as for any other
  item: the delta \<open>now - last_update_time\<close> is stored at the ring-buffer index, the index
  advances cyclically, and the last-update timestamp becomes \<open>now\<close>.
\<close>

theorem consume_unknown_sensor:
  "\<not> (tof_a S \<le> sid \<and> sid \<le> tof_d S) \<and> sid \<noteq> misc S \<longrightarrow>
     fst (consume S now (sid, data) st) = None \<and>
     tof (snd (consume S now (sid, data) st)) = tof st \<and>
     charge (snd (consume S now (sid, data) st)) = charge st \<and>
     voltage (snd (consume S now (sid, data) st)) = voltage st \<and>
     imu (snd (consume S now (sid, data) st)) = imu st \<and>
     ringbuffer (snd (consume S now (sid, data) st)) =
       (ringbuffer st)[ringbuffer_idx st := now - timestamp_update st] \<and>
     ringbuffer_idx (snd (consume S now (sid, data) st)) =
       (ringbuffer_idx st + 1) mod length (ringbuffer st) \<and>
     timestamp_update (snd (consume S now (sid, data) st)) = now"
proof
  assume "\<not> (tof_a S \<le> sid \<and> sid \<le> tof_d S) \<and> sid \<noteq> misc S"
  then have a: "\<not> (tof_a S \<le> sid \<and> sid \<le> tof_d S)" and b: "sid \<noteq> misc S"
    by blast+
  from consume_unknown_fields [OF a b, of now data st]
  show "fst (consume S now (sid, data) st) = None \<and>
     tof (snd (consume S now (sid, data) st)) = tof st \<and>
     charge (snd (consume S now (sid, data) st)) = charge st \<and>
     voltage (snd (consume S now (sid, data) st)) = voltage st \<and>
     imu (snd (consume S now (sid, data) st)) = imu st \<and>
     ringbuffer (snd (consume S now (sid, data) st)) =
       (ringbuffer st)[ringbuffer_idx st := now - timestamp_update st] \<and>
     ringbuffer_idx (snd (consume S now (sid, data) st)) =
       (ringbuffer_idx st + 1) mod length (ringbuffer st) \<and>
     timestamp_update (snd (consume S now (sid, data) st)) = now"
    by blast
qed

theorem consume_unknown_sensor_witness:
  "(\<not> (tof_a example_SENSORS \<le> 200 \<and> 200 \<le> tof_d example_SENSORS) \<and>
      200 \<noteq> misc example_SENSORS) \<and>
   tof (snd (consume example_SENSORS 5 (200, NdArray []) (initial_state 3))) =
     tof (initial_state 3) \<and>
   timestamp_update (snd (consume example_SENSORS 5 (200, NdArray []) (initial_state 3))) = 5"
proof -
  have h: "\<not> (tof_a example_SENSORS \<le> 200 \<and> 200 \<le> tof_d example_SENSORS) \<and>
      200 \<noteq> misc example_SENSORS"
    by (simp add: example_SENSORS_def)
  from consume_unknown_sensor
    [where S = example_SENSORS and sid = 200 and data = "NdArray []"
       and st = "initial_state 3" and now = 5, THEN mp, OF h] h
  show ?thesis by blast
qed


subsection \<open>Helper facts: the frequency estimator\<close>






















subsection \<open>Claim C8: the frequency estimator\<close>



subsection \<open>Helper facts: stopping a stream\<close>

lemma AEStreamer_stop_stream_never_raises:
  "\<exists>s1. AEStreamer_stop_stream env s = Inr s1"
  by (simp add: AEStreamer_stop_stream_def split: sum.splits)

lemma AEStreamer_stop_stream_stopped:
  assumes "aestream s = None" "aestream_log s = None"
  shows "AEStreamer_stop_stream env s = Inr s"
proof (cases "pkill_call env")
  case None
  with assms show ?thesis
    by (simp add: AEStreamer_stop_stream_def stop_stream_body_def bind_py_def os_result_def)
next
  case (Some e)
  with assms show ?thesis
    by (simp add: AEStreamer_stop_stream_def stop_stream_body_def bind_py_def os_result_def)
qed

lemma DVSClient_stop_stream_stopped:
  "sock c = None \<Longrightarrow> DVSClient_stop_stream depth c n = (Inr (), c, n)"
  by (simp add: DVSClient_stop_stream_def)

lemma DVSClient_stop_stream_success:
  assumes "DVSClient_stop_stream depth c n = (Inr u, c1, n1)"
  shows "sock c1 = None"
  using assms
  by (auto simp: DVSClient_stop_stream_def split: option.splits prod.splits sum.splits)


subsection \<open>Claim C9: \<open>stop_stream\<close> is idempotent\<close>

text \<open>
  Claim C9: on a streamer whose two process handles are already \<open>None\<close>,
  \<open>AEStreamer.stop_stream\<close> raises nothing and leaves the handles \<open>None\<close>, whatever the
  operating system answers; on a client whose socket is already \<open>None\<close>,
  \<open>DVSClient.stop_stream\<close> raises nothing, sends nothing and leaves the socket \<open>None\<close>. In
  particular a second call after a call that halted the stream is such a call.
\<close>

theorem stop_stream_idempotent:
  "AEStreamer_stop_stream env \<lparr>aestream = None, aestream_log = None\<rparr> =
     Inr \<lparr>aestream = None, aestream_log = None\<rparr> \<and>
   DVSClient_stop_stream depth \<lparr>sock = None\<rparr> n = (Inr (), \<lparr>sock = None\<rparr>, n) \<and>
   (AEStreamer_stop_stream env s = Inr sb \<and> aestream sb = None \<and> aestream_log sb = None \<longrightarrow>
      AEStreamer_stop_stream envb sb = Inr sb) \<and>
   (DVSClient_stop_stream depth c n = (Inr (), cb, nb) \<longrightarrow>
      sock cb = None \<and> DVSClient_stop_stream depthb cb nb = (Inr (), cb, nb))"
proof (intro conjI impI)
  show "AEStreamer_stop_stream env \<lparr>aestream = None, aestream_log = None\<rparr> =
     Inr \<lparr>aestream = None, aestream_log = None\<rparr>"
    by (rule AEStreamer_stop_stream_stopped) simp_all
  show "DVSClient_stop_stream depth \<lparr>sock = None\<rparr> n = (Inr (), \<lparr>sock = None\<rparr>, n)"
    by (rule DVSClient_stop_stream_stopped) simp
next
  assume "AEStreamer_stop_stream env s = Inr sb \<and> aestream sb = None \<and>
    aestream_log sb = None"
  then show "AEStreamer_stop_stream envb sb = Inr sb"
    by (simp add: AEStreamer_stop_stream_stopped)
next
  assume a: "DVSClient_stop_stream depth c n = (Inr (), cb, nb)"
  then show s: "sock cb = None"
    by (rule DVSClient_stop_stream_success)
  then show "DVSClient_stop_stream depthb cb nb = (Inr (), cb, nb)"
    by (rule DVSClient_stop_stream_stopped)
qed

theorem stop_stream_idempotent_witness:
  "(AEStreamer_stop_stream \<lparr>popen_calls = None, process_calls = None, pkill_call = None\<rparr>
       \<lparr>aestream = Some 1, aestream_log = Some 2\<rparr> =
       Inr \<lparr>aestream = None, aestream_log = None\<rparr> \<and>
     aestream \<lparr>aestream = None, aestream_log = None\<rparr> = None \<and>
     aestream_log \<lparr>aestream = None, aestream_log = None\<rparr> = None) \<and>
   AEStreamer_stop_stream \<lparr>popen_calls = None, process_calls = None,
       pkill_call = Some OtherError\<rparr> \<lparr>aestream = None, aestream_log = None\<rparr> =
     Inr \<lparr>aestream = None, aestream_log = None\<rparr> \<and>
   DVSClient_stop_stream 1000 \<lparr>sock = Some (Socket True)\<rparr> \<lparr>answers = [], sent = []\<rparr> =
     (Inr (), \<lparr>sock = None\<rparr>, \<lparr>answers = [], sent = [[1]]\<rparr>) \<and>
   DVSClient_stop_stream 1000 \<lparr>sock = None\<rparr> \<lparr>answers = [], sent = [[1]]\<rparr> =
     (Inr (), \<lparr>sock = None\<rparr>, \<lparr>answers = [], sent = [[1]]\<rparr>)"
proof -
  have h1: "AEStreamer_stop_stream \<lparr>popen_calls = None, process_calls = None, pkill_call = None\<rparr>
       \<lparr>aestream = Some 1, aestream_log = Some 2\<rparr> =
       Inr \<lparr>aestream = None, aestream_log = None\<rparr> \<and>
     aestream \<lparr>aestream = None, aestream_log = None\<rparr> = None \<and>
     aestream_log \<lparr>aestream = None, aestream_log = None\<rparr> = None"
    by (simp add: AEStreamer_stop_stream_def stop_stream_body_def bind_py_def os_result_def)
  have h2: "DVSClient_stop_stream 1000 \<lparr>sock = Some (Socket True)\<rparr>
      \<lparr>answers = [], sent = []\<rparr> =
     (Inr (), \<lparr>sock = None\<rparr>, \<lparr>answers = [], sent = [[1]]\<rparr>)"
    by code_simp
  note t = stop_stream_idempotent
    [where env = "\<lparr>popen_calls = None, process_calls = None, pkill_call = None\<rparr>"
       and s = "\<lparr>aestream = Some 1, aestream_log = Some 2\<rparr>"
       and sb = "\<lparr>aestream = None, aestream_log = None\<rparr>"
       and envb = "\<lparr>popen_calls = None, process_calls = None, pkill_call = Some OtherError\<rparr>"
       and depth = 1000 and c = "\<lparr>sock = Some (Socket True)\<rparr>"
       and n = "\<lparr>answers = [], sent = []\<rparr>" and cb = "\<lparr>sock = None\<rparr>"
       and nb = "\<lparr>answers = [], sent = [[1]]\<rparr>" and depthb = 1000]
  from t [THEN conjunct2, THEN conjunct2, THEN conjunct1, THEN mp, OF h1]
    t [THEN conjunct2, THEN conjunct2, THEN conjunct2, THEN mp, OF h2] h1 h2
  show ?thesis by blast
qed

end
